theory Spec2Isabelle
  imports Complex_Main
begin

section \<open>The decision engine of the short bot (bot.py)\<close>

text \<open>
  A shallow embedding of the decision logic of \<^verbatim>\<open>bybit_shortbot/bot.py\<close>: the candidate
  filter, the paper-trade lifecycle with its funding guard, the statistics line and the
  body of the watchlist loop of \<^verbatim>\<open>main\<close>.

  Python floats are IEEE 754 doubles. A float is a \<open>pyfloat\<close>: a finite value, an infinity or
  NaN. Arithmetic rounds the exact result to the nearest double, ties to even, and overflows
  to an infinity; comparisons with NaN are false; \<^verbatim>\<open>int\<close> of a NaN or an infinity and a
  division by zero raise. The two zeros are one value \<open>Fin 0\<close>: the code modelled here never
  tells them apart. A value that is read through \<^verbatim>\<open>safe_float\<close> is a \<open>raw\<close> value: \<open>Some v\<close>
  when Python's \<^verbatim>\<open>float(x)\<close> succeeds with \<open>v\<close>, and \<open>None\<close> when it raises (a missing key
  read with \<^verbatim>\<open>.get\<close>, \<^verbatim>\<open>None\<close>, a string that is no number).
  The global \<^verbatim>\<open>CFG\<close> is passed to every function as its first argument; the constant
  \<open>CFG\<close> below holds the values of the source, each decimal as the double it denotes.
\<close>

subsection \<open>Floats\<close>

datatype error = ZeroDivisionError | ValueError | OverflowError

datatype pyfloat = Fin real | PInf | NInf | NaN

text \<open>The comparisons \<^verbatim>\<open><\<close>, \<^verbatim>\<open><=\<close>, \<^verbatim>\<open>>\<close>, \<^verbatim>\<open>>=\<close> and \<^verbatim>\<open>==\<close>.\<close>

fun flt :: "pyfloat \<Rightarrow> pyfloat \<Rightarrow> bool" where
  "flt (Fin x) (Fin y) = (x < y)"
| "flt (Fin x) PInf = True"
| "flt NInf (Fin y) = True"
| "flt NInf PInf = True"
| "flt _ _ = False"

fun fle :: "pyfloat \<Rightarrow> pyfloat \<Rightarrow> bool" where
  "fle (Fin x) (Fin y) = (x \<le> y)"
| "fle NaN _ = False"
| "fle _ NaN = False"
| "fle NInf _ = True"
| "fle _ PInf = True"
| "fle _ _ = False"

definition fgt :: "pyfloat \<Rightarrow> pyfloat \<Rightarrow> bool" where
  "fgt a b = flt b a"

definition fge :: "pyfloat \<Rightarrow> pyfloat \<Rightarrow> bool" where
  "fge a b = fle b a"

fun feq :: "pyfloat \<Rightarrow> pyfloat \<Rightarrow> bool" where
  "feq (Fin x) (Fin y) = (x = y)"
| "feq PInf PInf = True"
| "feq NInf NInf = True"
| "feq _ _ = False"

text \<open>
  Rounding to the nearest double. \<open>pow2 e\<close> is the power of two with an integer exponent,
  \<open>rne\<close> rounds to the nearest integer with ties to the even one, \<open>binade x\<close> is the exponent
  of the power of two at or below \<open>\<bar>x\<bar>\<close>. A double in the binade \<open>k\<close> is a multiple of
  \<open>pow2 (k - 52)\<close>, and of \<open>pow2 (- 1074)\<close> in the subnormal range; a result that rounds to
  \<open>pow2 1024\<close> or beyond overflows.
\<close>

definition pow2 :: "int \<Rightarrow> real" where
  "pow2 e = (if 0 \<le> e then 2 ^ nat e else 1 / 2 ^ nat (- e))"

definition rne :: "real \<Rightarrow> int" where
  "rne x = (let f = \<lfloor>x\<rfloor>; d = x - of_int f in
            if d < 1 / 2 then f
            else if 1 / 2 < d then f + 1
            else if even f then f else f + 1)"

definition binade :: "real \<Rightarrow> int" where
  "binade x = \<lfloor>log 2 \<bar>x\<bar>\<rfloor>"

definition rnd :: "real \<Rightarrow> pyfloat" where
  "rnd x =
     (if x = 0 then Fin 0
      else
        let e = max (binade x - 52) (- 1074);
            y = of_int (rne (x / pow2 e)) * pow2 e
        in if pow2 1024 \<le> \<bar>y\<bar> then (if 0 < x then PInf else NInf) else Fin y)"

text \<open>A finite float of Python is a double: rounding leaves it as it is.\<close>

fun is_double :: "pyfloat \<Rightarrow> bool" where
  "is_double (Fin x) = (rnd x = Fin x)"
| "is_double _ = False"

text \<open>The arithmetic of floats: \<^verbatim>\<open>-x\<close>, \<^verbatim>\<open>abs(x)\<close>, \<^verbatim>\<open>x + y\<close>, \<^verbatim>\<open>x - y\<close>, \<^verbatim>\<open>x * y\<close>, \<^verbatim>\<open>x / y\<close>.\<close>

fun fneg :: "pyfloat \<Rightarrow> pyfloat" where
  "fneg (Fin x) = Fin (- x)"
| "fneg PInf = NInf"
| "fneg NInf = PInf"
| "fneg NaN = NaN"

fun fabs :: "pyfloat \<Rightarrow> pyfloat" where
  "fabs (Fin x) = Fin \<bar>x\<bar>"
| "fabs PInf = PInf"
| "fabs NInf = PInf"
| "fabs NaN = NaN"

fun fadd :: "pyfloat \<Rightarrow> pyfloat \<Rightarrow> pyfloat" where
  "fadd (Fin x) (Fin y) = rnd (x + y)"
| "fadd NaN _ = NaN"
| "fadd _ NaN = NaN"
| "fadd PInf NInf = NaN"
| "fadd NInf PInf = NaN"
| "fadd PInf _ = PInf"
| "fadd _ PInf = PInf"
| "fadd NInf _ = NInf"
| "fadd _ NInf = NInf"

definition fsub :: "pyfloat \<Rightarrow> pyfloat \<Rightarrow> pyfloat" where
  "fsub a b = fadd a (fneg b)"

fun fmul :: "pyfloat \<Rightarrow> pyfloat \<Rightarrow> pyfloat" where
  "fmul (Fin x) (Fin y) = rnd (x * y)"
| "fmul NaN _ = NaN"
| "fmul _ NaN = NaN"
| "fmul (Fin x) b = (if x = 0 then NaN else if 0 < x then b else fneg b)"
| "fmul a (Fin y) = (if y = 0 then NaN else if 0 < y then a else fneg a)"
| "fmul PInf b = b"
| "fmul NInf b = fneg b"

fun fdiv :: "pyfloat \<Rightarrow> pyfloat \<Rightarrow> error + pyfloat" where
  "fdiv (Fin x) (Fin y) = (if y = 0 then Inl ZeroDivisionError else Inr (rnd (x / y)))"
| "fdiv a (Fin y) =
     (if y = 0 then Inl ZeroDivisionError
      else case a of NaN \<Rightarrow> Inr NaN | _ \<Rightarrow> Inr (if 0 < y then a else fneg a))"
| "fdiv NaN _ = Inr NaN"
| "fdiv _ NaN = Inr NaN"
| "fdiv (Fin x) _ = Inr (Fin 0)"
| "fdiv _ _ = Inr NaN"

text \<open>Python's \<^verbatim>\<open>int(x)\<close> on a float truncates towards zero, and raises on NaN and infinities.\<close>

fun py_int :: "pyfloat \<Rightarrow> error + int" where
  "py_int (Fin x) = Inr (if x < 0 then \<lceil>x\<rceil> else \<lfloor>x\<rfloor>)"
| "py_int NaN = Inl ValueError"
| "py_int _ = Inl OverflowError"


text \<open>\<^verbatim>\<open>max(0, x)\<close>: the second argument only when it is greater.\<close>

definition py_max0 :: "pyfloat \<Rightarrow> pyfloat" where
  "py_max0 x = (if fgt x (Fin 0) then x else Fin 0)"

subsection \<open>Configuration\<close>

record BotConfig =
  category :: string
  tf :: string
  wake_seconds :: int
  only_on_15m_close :: bool
  quote :: string
  min_pump_from_low24_pct :: pyfloat
  near_high_ratio :: pyfloat
  min_turnover_usdt :: pyfloat
  stall_candles :: int
  watch_ttl_seconds :: int
  notional_usdt :: pyfloat
  tp_from_high_pct :: pyfloat
  sl_mult :: pyfloat
  enable_funding_guard :: bool
  funding_guard_ratio :: pyfloat
  state_file :: string
  trades_file :: string
  symbol_cooldown_minutes :: int

text \<open>
  The doubles that the literals \<^verbatim>\<open>0.88\<close> and \<^verbatim>\<open>0.30\<close> denote are
  \<open>7926335344172073 / 2 ^ 53\<close> and \<open>5404319552844595 / 2 ^ 54\<close>.
\<close>

definition CFG :: BotConfig where
  "CFG = \<lparr> category = ''linear'', tf = ''15'', wake_seconds = 5, only_on_15m_close = True,
      quote = ''USDT'', min_pump_from_low24_pct = Fin 35,
      near_high_ratio = Fin (7926335344172073 / 9007199254740992),
      min_turnover_usdt = Fin 5000000, stall_candles = 2, watch_ttl_seconds = 24 * 60 * 60,
      notional_usdt = Fin 20,
      tp_from_high_pct = Fin (5404319552844595 / 18014398509481984), sl_mult = Fin 2,
      enable_funding_guard = True, funding_guard_ratio = Fin 1,
      state_file = ''state.json'', trades_file = ''trades.json'',
      symbol_cooldown_minutes = 60 \<rparr>"

subsection \<open>Utilities\<close>

type_synonym raw = "pyfloat option"

text \<open>\<^verbatim>\<open>safe_float(x, default)\<close>: \<^verbatim>\<open>float(x)\<close>, and the default when that raises.\<close>

definition safe_float :: "raw \<Rightarrow> pyfloat \<Rightarrow> pyfloat" where
  "safe_float x dflt = (case x of Some v \<Rightarrow> v | None \<Rightarrow> dflt)"


text \<open>\<^verbatim>\<open>xs[-n:]\<close> for a positive \<open>n\<close>: the last \<open>n\<close> elements.\<close>

definition last_n :: "nat \<Rightarrow> 'a list \<Rightarrow> 'a list" where
  "last_n n xs = drop (length xs - n) xs"

subsection \<open>Filters\<close>




subsection \<open>Paper trades\<close>

text \<open>
  An entry of \<^verbatim>\<open>tick_map\<close>, or one of the default dictionaries that replace it. Each key is
  read with \<^verbatim>\<open>.get\<close> and \<^verbatim>\<open>safe_float\<close>, so each field is a raw value.
\<close>

record tinfo =
  ti_last :: raw
  ti_funding_rate :: raw
  ti_next_funding_ms :: raw

text \<open>The candle that \<^verbatim>\<open>get_last_closed_kline\<close> returns: entries 2, 3 and 4 of the list.\<close>

record candle =
  k_high :: raw
  k_low :: raw
  k_close :: raw

text \<open>
  A trade dictionary. The id \<^verbatim>\<open>f"{symbol}:{now_ts}"\<close> is kept as the pair it is formatted
  from.
\<close>

record trade =
  tr_id :: "string \<times> int"
  tr_symbol :: string
  tr_status :: string
  tr_created_ts :: int
  tr_open_ts :: int
  tr_side :: string
  tr_notional_usdt :: pyfloat
  tr_qty :: pyfloat
  tr_entry :: pyfloat
  tr_tp :: pyfloat
  tr_sl :: pyfloat
  tr_local_high :: pyfloat
  tr_funding_rate_at_open :: pyfloat
  tr_next_funding_ms_at_open :: int
  tr_close_ts :: "int option"
  tr_close_reason :: "string option"
  tr_close_price :: "pyfloat option"

text \<open>
  \<^verbatim>\<open>make_trade\<close>: the division \<^verbatim>\<open>CFG.notional_usdt / entry\<close> raises when the entry is 0, and
  the conversion of the next funding time raises on a NaN or an infinity.
\<close>

definition make_trade ::
  "BotConfig \<Rightarrow> string \<Rightarrow> pyfloat \<Rightarrow> pyfloat \<Rightarrow> int \<Rightarrow> tinfo \<Rightarrow> error + trade" where
  "make_trade cfg sym' entry local_high now_ts ticker =
     (let tp = fmul local_high (fsub (Fin 1) (tp_from_high_pct cfg));
          sl = fmul entry (sl_mult cfg)
      in
      case fdiv (notional_usdt cfg) entry of
        Inl e \<Rightarrow> Inl e
      | Inr qty \<Rightarrow>
          (case py_int (safe_float (ti_next_funding_ms ticker) (Fin 0)) of
             Inl e \<Rightarrow> Inl e
           | Inr next_funding_ms \<Rightarrow>
               Inr \<lparr> tr_id = (sym', now_ts), tr_symbol = sym', tr_status = ''OPEN'',
                     tr_created_ts = now_ts, tr_open_ts = now_ts,
                     tr_side = ''SHORT'', tr_notional_usdt = notional_usdt cfg, tr_qty = qty,
                     tr_entry = entry, tr_tp = tp, tr_sl = sl, tr_local_high = local_high,
                     tr_funding_rate_at_open = safe_float (ti_funding_rate ticker) (Fin 0),
                     tr_next_funding_ms_at_open = next_funding_ms,
                     tr_close_ts = None, tr_close_reason = None, tr_close_price = None \<rparr>))"


definition remaining_profit_to_tp :: "trade \<Rightarrow> pyfloat \<Rightarrow> pyfloat" where
  "remaining_profit_to_tp tr mark =
     (let tp = tr_tp tr; qty = tr_qty tr in
      if fle mark tp then Fin 0 else fmul (fsub mark tp) qty)"

definition funding_pnl_short :: "pyfloat \<Rightarrow> pyfloat \<Rightarrow> pyfloat" where
  "funding_pnl_short notional rate = fmul notional rate"

definition funding_guard :: "BotConfig \<Rightarrow> trade \<Rightarrow> tinfo \<Rightarrow> pyfloat \<Rightarrow> bool" where
  "funding_guard cfg tr ticker mark =
     (if \<not> enable_funding_guard cfg then False
      else
        let rate = safe_float (ti_funding_rate ticker) (Fin 0) in
        if fge rate (Fin 0) then False
        else
          let rem = remaining_profit_to_tp tr mark in
          if fle rem (Fin 0) then False
          else
            let expected = funding_pnl_short (tr_notional_usdt tr) rate in
            fge (fabs expected) (fmul rem (funding_guard_ratio cfg)))"

text \<open>
  The body of the loop of \<^verbatim>\<open>update_open_trades\<close>, for one trade. The exchange is the
  function \<open>kline\<close> from a symbol to its last candle, \<open>None\<close> when
  \<^verbatim>\<open>get_last_closed_kline\<close> returns nothing.
\<close>

definition update_trade ::
  "BotConfig \<Rightarrow> (string \<Rightarrow> candle option) \<Rightarrow> (string \<rightharpoonup> tinfo) \<Rightarrow> int \<Rightarrow> trade \<Rightarrow> trade" where
  "update_trade cfg kline tick_map now_ts tr =
     (if tr_status tr \<noteq> ''OPEN'' then tr
      else
        let sym' = tr_symbol tr in
        case kline sym' of
          None \<Rightarrow> tr
        | Some last_candle \<Rightarrow>
            let h = safe_float (k_high last_candle) (Fin 0);
                l = safe_float (k_low last_candle) (Fin 0);
                c = safe_float (k_close last_candle) (Fin 0);
                tp = tr_tp tr;
                sl = tr_sl tr;
                ticker = (case tick_map sym' of
                            Some t \<Rightarrow> t
                          | None \<Rightarrow> \<lparr> ti_last = Some c, ti_funding_rate = Some (Fin 0),
                                       ti_next_funding_ms = None \<rparr>);
                mark = safe_float (ti_last ticker) c
            in
            if funding_guard cfg tr ticker mark then
              tr\<lparr> tr_status := ''CLOSED'', tr_close_ts := Some now_ts,
                  tr_close_reason := Some ''FUNDING_GUARD'', tr_close_price := Some mark \<rparr>
            else
              let hit_tp = fle l tp;
                  hit_sl = fge h sl
              in
              if hit_tp \<and> hit_sl then
                tr\<lparr> tr_status := ''CLOSED'', tr_close_ts := Some now_ts,
                    tr_close_reason := Some ''SL'', tr_close_price := Some sl \<rparr>
              else if hit_sl then
                tr\<lparr> tr_status := ''CLOSED'', tr_close_ts := Some now_ts,
                    tr_close_reason := Some ''SL'', tr_close_price := Some sl \<rparr>
              else if hit_tp then
                tr\<lparr> tr_status := ''CLOSED'', tr_close_ts := Some now_ts,
                    tr_close_reason := Some ''TP'', tr_close_price := Some tp \<rparr>
              else tr)"

definition update_open_trades ::
  "BotConfig \<Rightarrow> (string \<Rightarrow> candle option) \<Rightarrow> (string \<rightharpoonup> tinfo) \<Rightarrow> int \<Rightarrow> trade list
    \<Rightarrow> trade list" where
  "update_open_trades cfg kline tick_map now_ts trades =
     map (update_trade cfg kline tick_map now_ts) trades"

subsection \<open>Statistics\<close>




subsection \<open>The watchlist loop of main\<close>

record watch_entry =
  w_local_high :: pyfloat
  w_stall :: int
  w_blocked :: bool
  w_updated_ts :: int
  w_created_ts :: int

text \<open>The event dictionaries appended to \<^verbatim>\<open>state["last_events"]\<close>, by their \<^verbatim>\<open>type\<close>.\<close>

datatype event =
  SKIP_BELOW_TP (ev_ts: int) (ev_symbol: string) (ev_entry: pyfloat) (ev_tp: pyfloat)
    (ev_local_high: pyfloat)
  | TRIGGER (ev_ts: int) (ev_symbol: string) (ev_entry: pyfloat) (ev_tp: pyfloat)
    (ev_sl: pyfloat) (ev_local_high: pyfloat) (ev_funding_rate: pyfloat)

record bot_state =
  last_bar_close_ms :: "int option"
  cooldowns :: "string \<rightharpoonup> int"
  watch :: "string \<rightharpoonup> watch_entry"
  last_events :: "event list"

definition set_cooldown :: "bot_state \<Rightarrow> string \<Rightarrow> int \<Rightarrow> bot_state" where
  "set_cooldown state sym' now_ts = state\<lparr> cooldowns := (cooldowns state)(sym' \<mapsto> now_ts) \<rparr>"

text \<open>
  Lines 413 to 425 of \<^verbatim>\<open>main\<close>: a new high resets the stall count and unblocks, anything
  else counts one more stalled candle.
\<close>

definition stall_update :: "watch_entry \<Rightarrow> pyfloat \<Rightarrow> int \<Rightarrow> watch_entry" where
  "stall_update w high now_ts =
     (let local_high = w_local_high w;
          stall = w_stall w;
          w1 = (if fgt high local_high
                then w\<lparr> w_local_high := high, w_stall := 0, w_blocked := False \<rparr>
                else w\<lparr> w_stall := stall + 1 \<rparr>)
      in w1\<lparr> w_updated_ts := now_ts \<rparr>)"

text \<open>
  The body of the loop over the watched symbols (step 4 of \<^verbatim>\<open>main\<close>), for one symbol.
  The trigger condition reads \<open>blocked\<close> as it was before the update. When \<^verbatim>\<open>make_trade\<close>
  raises, the exception leaves the loop: the result is \<open>Inl\<close> with the error and the state
  as it is in memory then (the entry updated, nothing appended, nothing removed).
\<close>

definition watch_step ::
  "BotConfig \<Rightarrow> (string \<Rightarrow> candle option) \<Rightarrow> (string \<rightharpoonup> tinfo) \<Rightarrow> int \<Rightarrow> string
    \<Rightarrow> bot_state \<times> trade list
    \<Rightarrow> (error \<times> bot_state \<times> trade list) + (bot_state \<times> trade list)" where
  "watch_step cfg kline tick_map now_ts sym' st =
     (let state = fst st; trades = snd st in
      case watch state sym' of
        None \<Rightarrow> Inr (state, trades)
      | Some w0 \<Rightarrow>
          (case kline sym' of
             None \<Rightarrow> Inr (state, trades)
           | Some last_candle \<Rightarrow>
               let high = safe_float (k_high last_candle) (Fin 0);
                   close = safe_float (k_close last_candle) (Fin 0);
                   blocked = w_blocked w0;
                   w = stall_update w0 high now_ts;
                   state1 = state\<lparr> watch := (watch state)(sym' \<mapsto> w) \<rparr>
               in
               if w_stall w \<ge> stall_candles cfg \<and> \<not> blocked then
                 let tinfo = (case tick_map sym' of
                                Some t \<Rightarrow> t
                              | None \<Rightarrow> \<lparr> ti_last = Some close, ti_funding_rate = Some (Fin 0),
                                           ti_next_funding_ms = Some (Fin 0) \<rparr>);
                     entry = safe_float (ti_last tinfo) close;
                     tp_from_high = fmul (w_local_high w) (fsub (Fin 1) (tp_from_high_pct cfg))
                 in
                 if fle entry tp_from_high then
                   Inr (state\<lparr> watch := (watch state)(sym' \<mapsto> w\<lparr> w_blocked := True \<rparr>),
                          last_events := last_n 500 (last_events state @
                            [SKIP_BELOW_TP now_ts sym' entry tp_from_high (w_local_high w)]) \<rparr>,
                        trades)
                 else
                   (case make_trade cfg sym' entry (w_local_high w) now_ts tinfo of
                      Inl e \<Rightarrow> Inl (e, state1, trades)
                    | Inr tr \<Rightarrow>
                        let state2 = set_cooldown state1 sym' now_ts;
                            state3 = state2\<lparr> last_events := last_n 500 (last_events state2 @
                              [TRIGGER now_ts sym' (tr_entry tr) (tr_tp tr) (tr_sl tr)
                                 (tr_local_high tr) (tr_funding_rate_at_open tr)]) \<rparr>
                        in Inr (state3\<lparr> watch := (watch state3)(sym' := None) \<rparr>, trades @ [tr]))
               else Inr (state1, trades)))"

subsection \<open>Runs, readings and concrete inputs\<close>

text \<open>
  One cycle of the main loop hands \<^verbatim>\<open>update_open_trades\<close> what the exchange answers then,
  the ticker map and the time; a run evaluates a trade in cycle after cycle.
\<close>

definition run_updates ::
  "BotConfig \<Rightarrow> ((string \<Rightarrow> candle option) \<times> (string \<rightharpoonup> tinfo) \<times> int) list \<Rightarrow> trade
    \<Rightarrow> trade" where
  "run_updates cfg cycles tr =
     foldl (\<lambda>t cyc. update_trade cfg (fst cyc) (fst (snd cyc)) (snd (snd cyc)) t) tr cycles"

text \<open>The open trade and the candle of the spec's tie-break example: tp 9, sl 11, low 8, high 12.\<close>

definition ex_trade :: trade where
  "ex_trade = \<lparr> tr_id = (''PUMPUSDT'', 1000), tr_symbol = ''PUMPUSDT'', tr_status = ''OPEN'',
      tr_created_ts = 1000, tr_open_ts = 1000, tr_side = ''SHORT'', tr_notional_usdt = Fin 20,
      tr_qty = Fin 2, tr_entry = Fin 10, tr_tp = Fin 9, tr_sl = Fin 11, tr_local_high = Fin 12,
      tr_funding_rate_at_open = Fin 0, tr_next_funding_ms_at_open = 0,
      tr_close_ts = None, tr_close_reason = None, tr_close_price = None \<rparr>"

definition ex_candle :: candle where
  "ex_candle = \<lparr> k_high = Some (Fin 12), k_low = Some (Fin 8), k_close = Some (Fin 10) \<rparr>"

definition ex_kline :: "string \<Rightarrow> candle option" where
  "ex_kline s = (if s = ''PUMPUSDT'' then Some ex_candle else None)"

definition ex_closed :: trade where
  "ex_closed = ex_trade\<lparr> tr_status := ''CLOSED'', tr_close_ts := Some 2000,
      tr_close_reason := Some ''SL'', tr_close_price := Some (Fin 11) \<rparr>"

text \<open>
  The remaining profit in the spec's words, \<^verbatim>\<open>max(0, (mark - take_profit) * quantity)\<close>, to be
  compared with \<open>remaining_profit_to_tp\<close>.
\<close>

definition spec_remaining :: "trade \<Rightarrow> pyfloat \<Rightarrow> pyfloat" where
  "spec_remaining tr mark = py_max0 (fmul (fsub mark (tr_tp tr)) (tr_qty tr))"

text \<open>
  A ticker whose funding rate is the double \<^verbatim>\<open>-0.01\<close>; a trade whose remaining profit is the
  mark price (take-profit 0, quantity 1); the doubles \<^verbatim>\<open>0.1\<close> and \<^verbatim>\<open>0.2\<close>; and a trade and a
  mark price at which the rounded remaining profit is exactly the rounded funding cost
  (take-profit \<^verbatim>\<open>0.847\<close>, quantity \<^verbatim>\<open>16.528925619834713\<close>, mark \<^verbatim>\<open>0.8591\<close>).
\<close>

definition ex_ticker_1pct :: tinfo where
  "ex_ticker_1pct = \<lparr> ti_last = None,
      ti_funding_rate = Some (Fin (- (5764607523034235 / 576460752303423488))),
      ti_next_funding_ms = None \<rparr>"

definition ex_unit_trade :: trade where
  "ex_unit_trade = ex_trade\<lparr> tr_qty := Fin 1, tr_tp := Fin 0 \<rparr>"

definition d01 :: real where
  "d01 = 3602879701896397 / 36028797018963968"

definition d02 :: real where
  "d02 = 3602879701896397 / 18014398509481984"

definition ex_edge_trade :: trade where
  "ex_edge_trade = ex_trade\<lparr> tr_qty := Fin (4652478953895141 / 281474976710656),
      tr_tp := Fin (1907274442191405 / 2251799813685248) \<rparr>"

definition ex_edge_mark :: pyfloat where
  "ex_edge_mark = Fin (3869042439873993 / 4503599627370496)"
















text \<open>
  Lines 429 and 430 of \<^verbatim>\<open>main\<close>, by name: the ticker entry of a watched symbol (the default
  dictionary with the candle's close when the symbol is not in \<^verbatim>\<open>tick_map\<close>) and the
  prospective entry price read from it; and line 432, the take-profit level of a local high.
\<close>

definition trigger_tinfo :: "(string \<rightharpoonup> tinfo) \<Rightarrow> string \<Rightarrow> pyfloat \<Rightarrow> tinfo" where
  "trigger_tinfo tick_map sym' close =
     (case tick_map sym' of
        Some t \<Rightarrow> t
      | None \<Rightarrow> \<lparr> ti_last = Some close, ti_funding_rate = Some (Fin 0),
                   ti_next_funding_ms = Some (Fin 0) \<rparr>)"

definition prospective_entry :: "(string \<rightharpoonup> tinfo) \<Rightarrow> string \<Rightarrow> pyfloat \<Rightarrow> pyfloat" where
  "prospective_entry tick_map sym' close =
     safe_float (ti_last (trigger_tinfo tick_map sym' close)) close"

definition tp_level :: "BotConfig \<Rightarrow> pyfloat \<Rightarrow> pyfloat" where
  "tp_level cfg local_high = fmul local_high (fsub (Fin 1) (tp_from_high_pct cfg))"

text \<open>
  A cycle of the main loop, as the watchlist sees it: the candles of the exchange, the
  ticker map and the time. A run processes one watched symbol in cycle after cycle and stops
  at an exception.
\<close>

type_synonym cycle = "(string \<Rightarrow> candle option) \<times> (string \<rightharpoonup> tinfo) \<times> int"

fun watch_run ::
  "BotConfig \<Rightarrow> string \<Rightarrow> cycle list \<Rightarrow> bot_state \<times> trade list
    \<Rightarrow> (error \<times> bot_state \<times> trade list) + (bot_state \<times> trade list)" where
  "watch_run cfg sym' [] st = Inr st"
| "watch_run cfg sym' (cyc # cycles) st =
     (case watch_step cfg (fst cyc) (fst (snd cyc)) (snd (snd cyc)) sym' st of
        Inl e \<Rightarrow> Inl e
      | Inr st' \<Rightarrow> watch_run cfg sym' cycles st')"

text \<open>The high of a symbol's candle in a cycle, as \<^verbatim>\<open>safe_float\<close> reads it.\<close>

definition cycle_high :: "string \<Rightarrow> cycle \<Rightarrow> pyfloat" where
  "cycle_high sym' cyc =
     (case fst cyc sym' of Some cd \<Rightarrow> safe_float (k_high cd) (Fin 0) | None \<Rightarrow> Fin 0)"

text \<open>
  A watched symbol with a given local high and one stalled candle; a candle with a given
  high and close; a ticker map with a given last price.
\<close>

definition ex_entry :: "real \<Rightarrow> watch_entry" where
  "ex_entry lh = \<lparr> w_local_high = Fin lh, w_stall = 1, w_blocked = False, w_updated_ts = 900,
      w_created_ts = 0 \<rparr>"

definition ex_state :: "real \<Rightarrow> bot_state" where
  "ex_state lh = \<lparr> last_bar_close_ms = None, cooldowns = Map.empty,
      watch = [''PUMPUSDT'' \<mapsto> ex_entry lh], last_events = [] \<rparr>"

definition ex_candle_at :: "real \<Rightarrow> real \<Rightarrow> candle" where
  "ex_candle_at h c = \<lparr> k_high = Some (Fin h), k_low = Some (Fin c), k_close = Some (Fin c) \<rparr>"

definition ex_kline_at :: "real \<Rightarrow> real \<Rightarrow> string \<Rightarrow> candle option" where
  "ex_kline_at h c s = Some (ex_candle_at h c)"

definition ex_tick :: "real \<Rightarrow> (string \<rightharpoonup> tinfo)" where
  "ex_tick p = [''PUMPUSDT'' \<mapsto> \<lparr> ti_last = Some (Fin p),
      ti_funding_rate = Some (Fin (- (5764607523034235 / 576460752303423488))),
      ti_next_funding_ms = Some (Fin 1700000000000) \<rparr>]"

text \<open>
  Two cycles with the highs 110 and 120, and the entry they leave; the doubles
  \<^verbatim>\<open>16.3625\<close> and \<^verbatim>\<open>15.749999999999998\<close>, which are the take-profit levels
  \<^verbatim>\<open>23.375 * (1.0 - 0.30)\<close> and \<^verbatim>\<open>22.5 * (1.0 - 0.30)\<close> of \<open>CFG\<close>.
\<close>

definition ex_cycles :: "cycle list" where
  "ex_cycles = [(ex_kline_at 110 105, ex_tick 105, 1000), (ex_kline_at 120 115, ex_tick 115, 2000)]"

definition ex_risen :: watch_entry where
  "ex_risen = (ex_entry 100)\<lparr> w_local_high := Fin 120, w_stall := 0, w_blocked := False,
      w_updated_ts := 2000 \<rparr>"

definition d16_3625 :: real where
  "d16_3625 = 4605634306428109 / 281474976710656"

definition d15_75_below :: real where
  "d15_75_below = 8866461766385663 / 562949953421312"

text \<open>
  The double \<^verbatim>\<open>0.7\<close>, which is \<^verbatim>\<open>1.0 - 0.30\<close>; the state after the symbol with local high
  \<^verbatim>\<open>23.375\<close> is blocked at the entry price \<^verbatim>\<open>16.3625\<close>; the trade opened at the local high
  \<^verbatim>\<open>22.5\<close> and the entry price \<^verbatim>\<open>15.75\<close>, and the state after it.
\<close>

definition d07 :: real where
  "d07 = 3152519739159347 / 4503599627370496"

definition ex_blocked_state :: bot_state where
  "ex_blocked_state = (ex_state (187 / 8))\<lparr> watch := [''PUMPUSDT'' \<mapsto>
        (ex_entry (187 / 8))\<lparr> w_stall := 2, w_blocked := True, w_updated_ts := 1000 \<rparr>],
      last_events :=
        [SKIP_BELOW_TP 1000 ''PUMPUSDT'' (Fin d16_3625) (Fin d16_3625) (Fin (187 / 8))] \<rparr>"

definition ex_opened_trade :: trade where
  "ex_opened_trade = \<lparr> tr_id = (''PUMPUSDT'', 1000), tr_symbol = ''PUMPUSDT'',
      tr_status = ''OPEN'', tr_created_ts = 1000, tr_open_ts = 1000, tr_side = ''SHORT'',
      tr_notional_usdt = Fin 20, tr_qty = Fin (1429714167419205 / 1125899906842624),
      tr_entry = Fin (63 / 4), tr_tp = Fin d15_75_below, tr_sl = Fin (63 / 2),
      tr_local_high = Fin (45 / 2),
      tr_funding_rate_at_open = Fin (- (5764607523034235 / 576460752303423488)),
      tr_next_funding_ms_at_open = 1700000000000,
      tr_close_ts = None, tr_close_reason = None, tr_close_price = None \<rparr>"

definition ex_opened_state :: bot_state where
  "ex_opened_state = (ex_state (45 / 2))\<lparr> cooldowns := [''PUMPUSDT'' \<mapsto> 1000],
      last_events := [TRIGGER 1000 ''PUMPUSDT'' (Fin (63 / 4)) (Fin d15_75_below) (Fin (63 / 2))
        (Fin (45 / 2)) (Fin (- (5764607523034235 / 576460752303423488)))],
      watch := Map.empty \<rparr>"

section \<open>Rounding\<close>

declare fgt_def [simp] fge_def [simp]

lemma pow2_powr: "pow2 e = 2 powr (of_int e)"
  by (simp add: pow2_def powr_real_of_int inverse_eq_divide)

lemma pow2_pos [simp]: "0 < pow2 e"
  by (simp add: pow2_powr)

lemma pow2_facts [simp]: "\<not> pow2 e \<le> 0" "\<bar>pow2 e\<bar> = pow2 e" "pow2 e \<noteq> 0" "0 \<le> pow2 e"
  "\<not> pow2 e < 0"
proof -
  have p: "0 < pow2 e" by (simp add: pow2_powr)
  from p show "\<not> pow2 e \<le> 0" by linarith
  from p show "\<bar>pow2 e\<bar> = pow2 e" by linarith
  from p show "pow2 e \<noteq> 0" by linarith
  from p show "0 \<le> pow2 e" by linarith
  from p show "\<not> pow2 e < 0" by linarith
qed

lemma pow2_add: "pow2 (a + b) = pow2 a * pow2 b"
  by (simp add: pow2_powr powr_add)

lemma pow2_mono: "a \<le> b \<Longrightarrow> pow2 a \<le> pow2 b"
  by (simp add: pow2_powr)

lemma pow2_nat: "0 \<le> e \<Longrightarrow> pow2 e = of_int (2 ^ nat e)"
  by (simp add: pow2_def)

lemma binade_eq:
  assumes "pow2 k \<le> \<bar>x\<bar>" and "\<bar>x\<bar> < pow2 (k + 1)"
  shows "binade x = k"
proof -
  have "0 < \<bar>x\<bar>" using assms(1) pow2_pos [of k] by linarith
  then show ?thesis
    using assms unfolding binade_def pow2_powr
    by (simp add: floor_log_eq_powr_iff)
qed

lemma binade_bounds:
  assumes "x \<noteq> 0"
  shows "pow2 (binade x) \<le> \<bar>x\<bar>" and "\<bar>x\<bar> < pow2 (binade x + 1)"
proof -
  have "0 < \<bar>x\<bar>" using assms by simp
  then have "2 powr (of_int (binade x)) \<le> \<bar>x\<bar> \<and> \<bar>x\<bar> < 2 powr (of_int (binade x + 1))"
    using floor_log_eq_powr_iff [of "\<bar>x\<bar>" 2 "binade x"] by (simp add: binade_def)
  then show "pow2 (binade x) \<le> \<bar>x\<bar>" and "\<bar>x\<bar> < pow2 (binade x + 1)"
    by (simp_all add: pow2_powr)
qed

lemma rne_of_int [simp]: "rne (of_int n) = n"
  by (simp add: rne_def)

lemma rne_bounds: "x - 1 / 2 \<le> of_int (rne x)" "of_int (rne x) \<le> x + 1 / 2"
  unfolding rne_def Let_def by (auto; linarith)+

lemma rne_mono: "x \<le> y \<Longrightarrow> rne x \<le> rne y"
proof -
  assume xy: "x \<le> y"
  show ?thesis
  proof (cases "\<lfloor>x\<rfloor> = \<lfloor>y\<rfloor>")
    case True
    with xy show ?thesis unfolding rne_def Let_def by (auto; linarith)
  next
    case False
    with xy have lt: "\<lfloor>x\<rfloor> < \<lfloor>y\<rfloor>" using floor_mono [of x y] by linarith
    have "rne x \<le> \<lfloor>x\<rfloor> + 1" unfolding rne_def Let_def by auto
    moreover have "\<lfloor>y\<rfloor> \<le> rne y" unfolding rne_def Let_def by auto
    ultimately show ?thesis using lt by linarith
  qed
qed

lemma rnd_eval:
  assumes "pow2 k \<le> \<bar>x\<bar>" and "\<bar>x\<bar> < pow2 (k + 1)" and "e = max (k - 52) (- 1074)"
  shows "rnd x = (let y = of_int (rne (x / pow2 e)) * pow2 e
                  in if pow2 1024 \<le> \<bar>y\<bar> then (if 0 < x then PInf else NInf) else Fin y)"
proof -
  have nz: "x \<noteq> 0" using assms(1) pow2_pos [of k] by auto
  have "binade x = k" using assms(1,2) by (rule binade_eq)
  with nz assms(3) show ?thesis by (simp add: rnd_def Let_def)
qed

lemma rnd_grid:
  assumes "x = of_int m * pow2 e" and "\<bar>m\<bar> < 2 ^ 53" and "- 1074 \<le> e"
  shows "rnd x = (if pow2 1024 \<le> \<bar>x\<bar> then (if 0 < x then PInf else NInf) else Fin x)"
proof (cases "x = 0")
  case True
  then show ?thesis by (simp add: rnd_def)
next
  case False
  define E where "E = max (binade x - 52) (- 1074)"
  have m0: "m \<noteq> 0" using False assms(1) by auto
  have "\<bar>x\<bar> = of_int \<bar>m\<bar> * pow2 e" using assms(1) by (simp add: abs_mult)
  also have "\<dots> < 2 ^ 53 * pow2 e"
  proof -
    have "(of_int \<bar>m\<bar> :: real) < of_int (2 ^ 53)" using assms(2) by (simp only: of_int_less_iff)
    then show ?thesis by simp
  qed
  also have "\<dots> = pow2 (53 + e)"
  proof -
    have "pow2 53 = 2 ^ 53" by (simp add: pow2_def)
    then show ?thesis using pow2_add [of 53 e] by simp
  qed
  finally have up: "\<bar>x\<bar> < pow2 (53 + e)" .
  have "pow2 (binade x) \<le> \<bar>x\<bar>" using False by (rule binade_bounds)
  with up have "pow2 (binade x) < pow2 (53 + e)" by linarith
  then have "binade x < 53 + e"
    by (simp add: pow2_powr)
  then have Ee: "E \<le> e" using assms(3) by (simp add: E_def)
  then have "pow2 e = pow2 E * of_int (2 ^ nat (e - E))"
    using pow2_add [of E "e - E"] pow2_nat [of "e - E"] by simp
  then have "x / pow2 E = of_int (m * 2 ^ nat (e - E))"
    using assms(1) by simp
  then have "of_int (rne (x / pow2 E)) * pow2 E = x / pow2 E * pow2 E"
    by (simp only: rne_of_int)
  then have y: "of_int (rne (x / pow2 E)) * pow2 E = x" by simp
  show ?thesis
    using False y by (simp add: rnd_def E_def [symmetric] Let_def)
qed

lemma rne_numerals [simp]: "rne 0 = 0" "rne 1 = 1" "rne (- 1) = - 1"
  using rne_of_int [of 0] rne_of_int [of 1] rne_of_int [of "- 1"] by simp_all

lemma rne_nonneg: "0 \<le> x \<Longrightarrow> 0 \<le> rne x"
  using rne_mono [of 0 x] by simp

lemma rne_nonpos: "x \<le> 0 \<Longrightarrow> rne x \<le> 0"
  using rne_mono [of x 0] by simp

lemma rnd_nonneg: "0 \<le> x \<Longrightarrow> fle (Fin 0) (rnd x)"
proof -
  assume x: "0 \<le> x"
  have "0 \<le> of_int (rne (x / pow2 e)) * pow2 e" for e
    using rne_nonneg [of "x / pow2 e"] x by simp
  then show ?thesis using x by (simp add: rnd_def Let_def)
qed

lemma rnd_nonpos: "x \<le> 0 \<Longrightarrow> fle (rnd x) (Fin 0)"
proof -
  assume x: "x \<le> 0"
  have "of_int (rne (x / pow2 e)) * pow2 e \<le> 0" for e
  proof -
    have "x / pow2 e \<le> 0" using x by (simp add: divide_nonpos_pos)
    then have "rne (x / pow2 e) \<le> 0" by (rule rne_nonpos)
    then have "(of_int (rne (x / pow2 e)) :: real) \<le> 0" by simp
    then show ?thesis by (simp add: mult_nonpos_nonneg)
  qed
  then show ?thesis using x by (simp add: rnd_def Let_def)
qed

lemma ulp_le_abs:
  assumes "pow2 (- 1074) \<le> \<bar>x\<bar>"
  shows "pow2 (max (binade x - 52) (- 1074)) \<le> \<bar>x\<bar>"
proof -
  have nz: "x \<noteq> 0" using assms pow2_pos [of "- 1074"] by auto
  have "pow2 (binade x - 52) \<le> pow2 (binade x)" by (rule pow2_mono) simp
  also have "\<dots> \<le> \<bar>x\<bar>" using nz by (rule binade_bounds)
  finally show ?thesis using assms by (simp add: max_def)
qed


lemma rnd_pos_strict:
  assumes "pow2 (- 1074) \<le> x"
  shows "flt (Fin 0) (rnd x)"
proof -
  define e where "e = max (binade x - 52) (- 1074)"
  have pos: "0 < x" using assms pow2_pos [of "- 1074"] by linarith
  then have "pow2 (- 1074) \<le> \<bar>x\<bar>" using assms by simp
  then have "pow2 e \<le> \<bar>x\<bar>" unfolding e_def by (rule ulp_le_abs)
  with pos have "pow2 e \<le> x" by simp
  then have "1 \<le> x / pow2 e" by (simp add: pos_le_divide_eq)
  then have "rne 1 \<le> rne (x / pow2 e)" by (rule rne_mono)
  moreover have "rne 1 = 1" by simp
  ultimately have "(1 :: real) \<le> of_int (rne (x / pow2 e))" by linarith
  then have "1 * pow2 e \<le> of_int (rne (x / pow2 e)) * pow2 e"
    by (intro mult_right_mono) simp_all
  then have "0 < of_int (rne (x / pow2 e)) * pow2 e" using pow2_pos [of e] by linarith
  with pos show ?thesis by (simp add: rnd_def e_def [symmetric] Let_def)
qed

lemma rne_range:
  assumes "\<bar>x\<bar> \<le> of_int n"
  shows "\<bar>rne x\<bar> \<le> n"
proof -
  have "x \<le> of_int n" and "of_int (- n) \<le> x" using assms by simp_all
  then have "rne x \<le> rne (of_int n)" and "rne (of_int (- n)) \<le> rne x"
    by (simp_all only: rne_mono)
  then have "rne x \<le> n" and "- n \<le> rne x" by (simp_all only: rne_of_int)
  then show ?thesis by linarith
qed

lemma rnd_on_grid:
  assumes "rnd x = Fin y"
  shows "\<exists>m e. y = of_int m * pow2 e \<and> \<bar>m\<bar> < 2 ^ 53 \<and> - 1074 \<le> e"
proof (cases "x = 0")
  case True
  with assms have "y = of_int 0 * pow2 0" by (simp add: rnd_def)
  then show ?thesis by (intro exI [of _ 0] exI [of _ "0 :: int"]) simp
next
  case False
  define E where "E = max (binade x - 52) (- 1074)"
  define q where "q = rne (x / pow2 E)"
  from assms False have y: "y = of_int q * pow2 E"
    by (simp add: rnd_def E_def [symmetric] q_def [symmetric] Let_def split: if_splits)
  have "\<bar>x\<bar> < pow2 (binade x + 1)" using False by (rule binade_bounds)
  also have "\<dots> \<le> pow2 (53 + E)" by (rule pow2_mono) (simp add: E_def)
  also have "\<dots> = pow2 53 * pow2 E" by (rule pow2_add)
  finally have "\<bar>x\<bar> / pow2 E < pow2 53" by (simp add: pos_divide_less_eq)
  moreover have "pow2 53 = of_int (2 ^ 53)" by (simp add: pow2_def)
  ultimately have "\<bar>x / pow2 E\<bar> \<le> of_int (2 ^ 53)" by simp
  then have qb: "\<bar>q\<bar> \<le> 2 ^ 53" unfolding q_def by (rule rne_range)
  have E: "- 1074 \<le> E" by (simp add: E_def)
  show ?thesis
  proof (cases "\<bar>q\<bar> < 2 ^ 53")
    case True
    with y E show ?thesis by blast
  next
    case False
    with qb have q2: "\<bar>q\<bar> = 2 ^ 53" by linarith
    then have qq: "q = 2 ^ 53 \<or> q = - (2 ^ 53)" by linarith
    then have ev: "q = 2 * (q div 2)" by (elim disjE) simp_all
    have "pow2 (E + 1) = pow2 E * 2" using pow2_add [of E 1] by (simp add: pow2_def)
    then have "of_int (q div 2) * pow2 (E + 1) = of_int (2 * (q div 2)) * pow2 E" by simp
    with ev y have y': "y = of_int (q div 2) * pow2 (E + 1)" by simp
    have "\<bar>q div 2\<bar> < 2 ^ 53" using qq by (elim disjE) simp_all
    moreover have "- 1074 \<le> E + 1" using E by simp
    ultimately show ?thesis using y' by blast
  qed
qed




lemma double_pos_bound:
  assumes "rnd y = Fin y" and "0 < y"
  shows "pow2 (- 1074) \<le> y"
proof -
  from rnd_on_grid [OF assms(1)] obtain m e
    where g: "y = of_int m * pow2 e" "\<bar>m\<bar> < 2 ^ 53" "- 1074 \<le> e" by blast
  from g(1) assms(2) have "0 < of_int m * pow2 e" by simp
  then have "(0 :: real) < of_int m" by (simp add: zero_less_mult_iff)
  then have "1 \<le> m" by linarith
  then have "(1 :: real) \<le> of_int m" by (metis of_int_le_iff of_int_1)
  then have "1 * pow2 e \<le> of_int m * pow2 e" by (intro mult_right_mono) simp_all
  moreover have "pow2 (- 1074) \<le> pow2 e" using g(3) by (rule pow2_mono)
  ultimately show ?thesis using g(1) by linarith
qed

lemma rnd_twice:
  assumes "rnd x = Fin x" and "0 < x"
  shows "flt (Fin x) (rnd (x * 2))"
proof -
  from rnd_on_grid [OF assms(1)] obtain m e
    where g: "x = of_int m * pow2 e" "\<bar>m\<bar> < 2 ^ 53" "- 1074 \<le> e" by blast
  have "pow2 (e + 1) = pow2 e * 2" using pow2_add [of e 1] by (simp add: pow2_def)
  with g(1) have "x * 2 = of_int m * pow2 (e + 1)" by simp
  moreover have "- 1074 \<le> e + 1" using g(3) by simp
  ultimately have "rnd (x * 2) =
      (if pow2 1024 \<le> \<bar>x * 2\<bar> then (if 0 < x * 2 then PInf else NInf) else Fin (x * 2))"
    using g(2) by (intro rnd_grid)
  with assms(2) show ?thesis by simp
qed

lemma pow2_less: "a < b \<Longrightarrow> pow2 a < pow2 b"
  by (simp add: pow2_powr)

lemma rnd_normal:
  assumes "pow2 k \<le> \<bar>x\<bar>" and "\<bar>x\<bar> < pow2 (k + 1)" and "- 1022 \<le> k" and "k \<le> 1022"
  shows "rnd x = Fin (of_int (rne (x / pow2 (k - 52))) * pow2 (k - 52))"
proof -
  define e where "e = k - 52"
  have e: "e = max (k - 52) (- 1074)" using assms(3) by (simp add: e_def)
  have ke: "pow2 (k + 1) = pow2 53 * pow2 e"
  proof -
    have "k + 1 = 53 + e" by (simp add: e_def)
    then show ?thesis by (simp only: pow2_add)
  qed
  have "\<bar>x\<bar> < pow2 53 * pow2 e" using assms(2) ke by simp
  then have "\<bar>x\<bar> / pow2 e < pow2 53" by (simp add: pos_divide_less_eq)
  moreover have p53: "pow2 53 = of_int (2 ^ 53)" by (simp add: pow2_def)
  ultimately have "\<bar>x / pow2 e\<bar> \<le> of_int (2 ^ 53)" by simp
  then have "\<bar>rne (x / pow2 e)\<bar> \<le> 2 ^ 53" by (rule rne_range)
  then have "\<bar>of_int (rne (x / pow2 e)) :: real\<bar> \<le> of_int (2 ^ 53)"
    by (simp only: of_int_abs [symmetric] of_int_le_iff)
  then have "\<bar>of_int (rne (x / pow2 e)) * pow2 e\<bar> \<le> pow2 53 * pow2 e"
    by (simp add: abs_mult p53 mult_right_mono)
  also have "\<dots> = pow2 (k + 1)" using ke by simp
  also have "\<dots> < pow2 1024" by (rule pow2_less) (use assms(4) in simp)
  finally have "\<not> pow2 1024 \<le> \<bar>of_int (rne (x / pow2 e)) * pow2 e\<bar>" by simp
  with rnd_eval [OF assms(1,2) e] show ?thesis by (simp add: Let_def e_def)
qed

lemma rnd_dyadic:
  assumes "\<bar>m\<bar> < 2 ^ 53" and "n \<le> 1074"
  shows "rnd (of_int m / 2 ^ n) = Fin (of_int m / 2 ^ n)"
proof -
  have p: "pow2 (- int n) = 1 / 2 ^ n" by (simp add: pow2_def)
  then have x: "of_int m / 2 ^ n = of_int m * pow2 (- int n)" by simp
  have "(1 :: real) \<le> 2 ^ n" by simp
  then have "\<bar>of_int m\<bar> / (2 :: real) ^ n \<le> \<bar>of_int m\<bar> / 1"
    by (intro divide_left_mono) simp_all
  then have "\<bar>of_int m / (2 :: real) ^ n\<bar> \<le> \<bar>of_int m\<bar>"
    by (simp add: abs_divide)
  also have "\<dots> < of_int (2 ^ 53)" using assms(1) by (simp only: of_int_abs [symmetric] of_int_less_iff)
  also have "\<dots> = pow2 53" by (simp add: pow2_def)
  also have "\<dots> < pow2 1024" by (rule pow2_less) simp
  finally have "\<not> pow2 1024 \<le> \<bar>of_int m / (2 :: real) ^ n\<bar>" by simp
  moreover have "- 1074 \<le> - int n" using assms(2) by simp
  ultimately show ?thesis using rnd_grid [OF x assms(1)] by simp
qed

lemma rnd_int:
  assumes "\<bar>m\<bar> < 2 ^ 53"
  shows "rnd (of_int m) = Fin (of_int m)"
  using rnd_dyadic [OF assms, of 0] by simp

section \<open>The trade lifecycle\<close>

lemma update_trade_not_open:
  "tr_status tr \<noteq> ''OPEN'' \<Longrightarrow> update_trade cfg kline tick_map now_ts tr = tr"
  by (simp add: update_trade_def)

lemma update_trade_changes:
  "update_trade cfg kline tick_map now_ts tr \<noteq> tr \<Longrightarrow>
     tr_status tr = ''OPEN'' \<and> tr_status (update_trade cfg kline tick_map now_ts tr) = ''CLOSED''"
  by (auto simp add: update_trade_def Let_def split: option.splits if_splits)

lemma run_updates_closed: "tr_status tr = ''CLOSED'' \<Longrightarrow> run_updates cfg cycles tr = tr"
  unfolding run_updates_def
  by (induction cycles arbitrary: tr) (simp_all add: update_trade_not_open)

lemma ex_trade_fields:
  "tr_status ex_trade = ''OPEN''" "tr_symbol ex_trade = ''PUMPUSDT''"
  "tr_tp ex_trade = Fin 9" "tr_sl ex_trade = Fin 11" "tr_qty ex_trade = Fin 2"
  "tr_notional_usdt ex_trade = Fin 20"
  by (simp_all add: ex_trade_def)

lemma ex_update: "update_trade CFG ex_kline Map.empty 2000 ex_trade = ex_closed"
  by (simp add: update_trade_def ex_trade_def ex_kline_def ex_candle_def ex_closed_def
      funding_guard_def safe_float_def Let_def fge_def)

text \<open>
  C1. An OPEN trade with a candle (high \<open>h\<close>, low \<open>l\<close>) is decided in this order: when the
  funding guard fires, the trade closes as FUNDING_GUARD at the mark price, whatever the
  candle; otherwise, when \<^verbatim>\<open>l <= tp\<close> and \<^verbatim>\<open>h >= sl\<close> both hold it closes as SL at \<open>sl\<close>, when
  only \<^verbatim>\<open>h >= sl\<close> holds it closes as SL at \<open>sl\<close>, when only \<^verbatim>\<open>l <= tp\<close> holds it closes as TP at
  \<open>tp\<close>, and when neither holds the trade is returned unchanged. The mark price is the
  ticker's last price, the candle's close when there is none.
\<close>

theorem update_trade_decision_order:
  assumes "tr_status tr = ''OPEN''" and "kline (tr_symbol tr) = Some cd"
  shows "(let h = safe_float (k_high cd) (Fin 0); l = safe_float (k_low cd) (Fin 0);
              c = safe_float (k_close cd) (Fin 0);
              ticker = (case tick_map (tr_symbol tr) of
                          Some t \<Rightarrow> t
                        | None \<Rightarrow> \<lparr> ti_last = Some c, ti_funding_rate = Some (Fin 0),
                                     ti_next_funding_ms = None \<rparr>);
              mark = safe_float (ti_last ticker) c;
              new = update_trade cfg kline tick_map now_ts tr
          in (funding_guard cfg tr ticker mark \<longrightarrow>
                new = tr\<lparr> tr_status := ''CLOSED'', tr_close_ts := Some now_ts,
                  tr_close_reason := Some ''FUNDING_GUARD'', tr_close_price := Some mark \<rparr>)
           \<and> (\<not> funding_guard cfg tr ticker mark \<longrightarrow>
                (fle l (tr_tp tr) \<and> fge h (tr_sl tr) \<longrightarrow>
                   new = tr\<lparr> tr_status := ''CLOSED'', tr_close_ts := Some now_ts,
                     tr_close_reason := Some ''SL'', tr_close_price := Some (tr_sl tr) \<rparr>)
              \<and> (\<not> fle l (tr_tp tr) \<and> fge h (tr_sl tr) \<longrightarrow>
                   new = tr\<lparr> tr_status := ''CLOSED'', tr_close_ts := Some now_ts,
                     tr_close_reason := Some ''SL'', tr_close_price := Some (tr_sl tr) \<rparr>)
              \<and> (fle l (tr_tp tr) \<and> \<not> fge h (tr_sl tr) \<longrightarrow>
                   new = tr\<lparr> tr_status := ''CLOSED'', tr_close_ts := Some now_ts,
                     tr_close_reason := Some ''TP'', tr_close_price := Some (tr_tp tr) \<rparr>)
              \<and> (\<not> fle l (tr_tp tr) \<and> \<not> fge h (tr_sl tr) \<longrightarrow> new = tr)))"
  using assms by (simp add: update_trade_def Let_def)

text \<open>The spec's example: low 8 and high 12 hit both tp 9 and sl 11, and the trade closes as SL at 11.\<close>

theorem update_trade_decision_order_witness:
  "tr_status ex_trade = ''OPEN'' \<and> ex_kline (tr_symbol ex_trade) = Some ex_candle
   \<and> update_trade CFG ex_kline Map.empty 2000 ex_trade
       = ex_trade\<lparr> tr_status := ''CLOSED'', tr_close_ts := Some 2000,
           tr_close_reason := Some ''SL'', tr_close_price := Some (Fin 11) \<rparr>"
proof -
  have h1: "tr_status ex_trade = ''OPEN''" by (simp add: ex_trade_def)
  have h2: "ex_kline (tr_symbol ex_trade) = Some ex_candle"
    by (simp add: ex_trade_def ex_kline_def)
  from update_trade_decision_order [where tr = ex_trade and kline = ex_kline
      and cd = ex_candle and tick_map = Map.empty and cfg = CFG and now_ts = 2000, OF h1 h2]
  show ?thesis
    using h1 h2
    by (simp add: Let_def funding_guard_def safe_float_def ex_candle_def ex_trade_def CFG_def fge_def)
qed

text \<open>
  C8. A trade whose status is CLOSED is returned unchanged by an evaluation, by a run of
  evaluations and by \<^verbatim>\<open>update_open_trades\<close> (so it never goes back to OPEN). An evaluation
  that changes a trade started from an OPEN trade and ends in a CLOSED one, which every
  later evaluation leaves as it is: the close fields are set once.
\<close>

theorem closed_trade_immutable:
  "(tr_status tr = ''CLOSED'' \<longrightarrow>
      update_trade cfg kline tick_map now_ts tr = tr \<and> run_updates cfg cycles tr = tr)
   \<and> (\<forall>i < length trades. tr_status (trades ! i) = ''CLOSED'' \<longrightarrow>
         update_open_trades cfg kline tick_map now_ts trades ! i = trades ! i)
   \<and> (update_trade cfg kline tick_map now_ts tr' \<noteq> tr' \<longrightarrow>
         tr_status tr' = ''OPEN''
         \<and> tr_status (update_trade cfg kline tick_map now_ts tr') = ''CLOSED''
         \<and> run_updates cfg cycles (update_trade cfg kline tick_map now_ts tr')
             = update_trade cfg kline tick_map now_ts tr')"
proof (intro conjI impI allI)
  assume "tr_status tr = ''CLOSED''"
  then show "update_trade cfg kline tick_map now_ts tr = tr"
    by (simp add: update_trade_not_open)
next
  assume "tr_status tr = ''CLOSED''"
  then show "run_updates cfg cycles tr = tr" by (rule run_updates_closed)
next
  fix i assume "i < length trades" "tr_status (trades ! i) = ''CLOSED''"
  then show "update_open_trades cfg kline tick_map now_ts trades ! i = trades ! i"
    by (simp add: update_open_trades_def update_trade_not_open)
next
  assume ch: "update_trade cfg kline tick_map now_ts tr' \<noteq> tr'"
  from update_trade_changes [OF ch] show "tr_status tr' = ''OPEN''" by simp
  from update_trade_changes [OF ch]
  show c: "tr_status (update_trade cfg kline tick_map now_ts tr') = ''CLOSED''" by simp
  from c show "run_updates cfg cycles (update_trade cfg kline tick_map now_ts tr')
             = update_trade cfg kline tick_map now_ts tr'" by (rule run_updates_closed)
qed

theorem closed_trade_immutable_witness:
  "tr_status ex_closed = ''CLOSED''
   \<and> update_trade CFG ex_kline Map.empty 3000 ex_closed = ex_closed
   \<and> run_updates CFG [(ex_kline, Map.empty, 3000), (ex_kline, Map.empty, 4000)] ex_closed
       = ex_closed
   \<and> (0::nat) < length [ex_closed, ex_trade]
   \<and> update_open_trades CFG ex_kline Map.empty 3000 [ex_closed, ex_trade] ! 0 = ex_closed
   \<and> update_trade CFG ex_kline Map.empty 2000 ex_trade \<noteq> ex_trade
   \<and> run_updates CFG [(ex_kline, Map.empty, 3000), (ex_kline, Map.empty, 4000)]
         (update_trade CFG ex_kline Map.empty 2000 ex_trade)
       = update_trade CFG ex_kline Map.empty 2000 ex_trade"
proof -
  have h1: "tr_status ex_closed = ''CLOSED''" by (simp add: ex_closed_def)
  have h2: "update_trade CFG ex_kline Map.empty 2000 ex_trade \<noteq> ex_trade"
    by (simp add: ex_update) (simp add: ex_closed_def ex_trade_def)
  from closed_trade_immutable [where tr = ex_closed and tr' = ex_trade and cfg = CFG
      and kline = ex_kline and tick_map = Map.empty and now_ts = 3000
      and cycles = "[(ex_kline, Map.empty, 3000), (ex_kline, Map.empty, 4000)]"
      and trades = "[ex_closed, ex_trade]"]
  have a: "update_trade CFG ex_kline Map.empty 3000 ex_closed = ex_closed"
    and b: "run_updates CFG [(ex_kline, Map.empty, 3000), (ex_kline, Map.empty, 4000)]
              ex_closed = ex_closed"
    and c: "update_open_trades CFG ex_kline Map.empty 3000 [ex_closed, ex_trade] ! 0
              = ex_closed"
    using h1 by auto
  from closed_trade_immutable [where tr' = ex_trade and cfg = CFG
      and kline = ex_kline and tick_map = Map.empty and now_ts = 2000
      and cycles = "[(ex_kline, Map.empty, 3000), (ex_kline, Map.empty, 4000)]"]
  have d: "run_updates CFG [(ex_kline, Map.empty, 3000), (ex_kline, Map.empty, 4000)]
         (update_trade CFG ex_kline Map.empty 2000 ex_trade)
       = update_trade CFG ex_kline Map.empty 2000 ex_trade"
    using h2 by blast
  from h1 h2 a b c d show ?thesis by simp
qed

text \<open>
  C9. An OPEN trade for whose symbol no candle is available is skipped in that cycle: it is
  returned with every field unchanged.
\<close>

theorem no_candle_skips_trade:
  "tr_status tr = ''OPEN'' \<Longrightarrow> kline (tr_symbol tr) = None \<Longrightarrow>
     update_trade cfg kline tick_map now_ts tr = tr"
  by (simp add: update_trade_def)

theorem no_candle_skips_trade_witness:
  "tr_status ex_trade = ''OPEN'' \<and> (\<lambda>s. None) (tr_symbol ex_trade) = (None :: candle option)
   \<and> update_trade CFG (\<lambda>s. None) Map.empty 2000 ex_trade = ex_trade"
proof -
  have h1: "tr_status ex_trade = ''OPEN''" by (simp add: ex_trade_def)
  have h2: "(\<lambda>s. None) (tr_symbol ex_trade) = (None :: candle option)" by simp
  from no_candle_skips_trade [where tr = ex_trade and kline = "\<lambda>s. None" and cfg = CFG
      and tick_map = Map.empty and now_ts = 2000, OF h1 h2] h1
  show ?thesis by simp
qed

text \<open>
  C10. For an OPEN trade with a candle whose symbol is not in the ticker map, the evaluation
  is the one with a ticker of funding rate 0 and last price the candle's close: the funding
  rate read is 0, the mark price is the close, the funding guard does not fire, and the
  trade closes only by the candle range (SL at \<open>sl\<close> when \<^verbatim>\<open>h >= sl\<close>, else TP at \<open>tp\<close> when
  \<^verbatim>\<open>l <= tp\<close>, else it stays as it is).
\<close>

theorem absent_ticker_defaults:
  assumes "tr_status tr = ''OPEN''" and "kline (tr_symbol tr) = Some cd"
    and "tick_map (tr_symbol tr) = None"
  shows "(let h = safe_float (k_high cd) (Fin 0); l = safe_float (k_low cd) (Fin 0);
              c = safe_float (k_close cd) (Fin 0);
              dflt = \<lparr> ti_last = Some c, ti_funding_rate = Some (Fin 0), ti_next_funding_ms = None \<rparr>
          in update_trade cfg kline tick_map now_ts tr
               = update_trade cfg kline (tick_map(tr_symbol tr \<mapsto> dflt)) now_ts tr
           \<and> safe_float (ti_funding_rate dflt) (Fin 0) = Fin 0
           \<and> safe_float (ti_last dflt) c = c
           \<and> \<not> funding_guard cfg tr dflt c
           \<and> update_trade cfg kline tick_map now_ts tr =
               (if fge h (tr_sl tr) then
                  tr\<lparr> tr_status := ''CLOSED'', tr_close_ts := Some now_ts,
                      tr_close_reason := Some ''SL'', tr_close_price := Some (tr_sl tr) \<rparr>
                else if fle l (tr_tp tr) then
                  tr\<lparr> tr_status := ''CLOSED'', tr_close_ts := Some now_ts,
                      tr_close_reason := Some ''TP'', tr_close_price := Some (tr_tp tr) \<rparr>
                else tr))"
  using assms by (simp add: update_trade_def Let_def funding_guard_def safe_float_def fge_def)

theorem absent_ticker_defaults_witness:
  "tr_status ex_trade = ''OPEN'' \<and> ex_kline (tr_symbol ex_trade) = Some ex_candle
   \<and> Map.empty (tr_symbol ex_trade) = (None :: tinfo option)
   \<and> \<not> funding_guard CFG ex_trade
         \<lparr> ti_last = Some (Fin 10), ti_funding_rate = Some (Fin 0), ti_next_funding_ms = None \<rparr> (Fin 10)
   \<and> update_trade CFG ex_kline Map.empty 2000 ex_trade
       = ex_trade\<lparr> tr_status := ''CLOSED'', tr_close_ts := Some 2000,
           tr_close_reason := Some ''SL'', tr_close_price := Some (Fin 11) \<rparr>"
proof -
  have h1: "tr_status ex_trade = ''OPEN''" by (simp add: ex_trade_def)
  have h2: "ex_kline (tr_symbol ex_trade) = Some ex_candle"
    by (simp add: ex_trade_def ex_kline_def)
  have h3: "Map.empty (tr_symbol ex_trade) = (None :: tinfo option)" by simp
  from absent_ticker_defaults [where tr = ex_trade and kline = ex_kline and cd = ex_candle
      and tick_map = Map.empty and cfg = CFG and now_ts = 2000, OF h1 h2 h3]
  show ?thesis
    using h1 h2
    by (auto simp add: Let_def safe_float_def ex_candle_def ex_trade_fields)
qed

section \<open>The order of floats\<close>

lemma flt_irrefl [simp]: "\<not> flt a a"
  by (cases a) simp_all

lemma flt_trans: "flt a b \<Longrightarrow> flt b c \<Longrightarrow> flt a c"
  by (cases a; cases b; cases c) simp_all

lemma flt_not_fle: "flt a b \<Longrightarrow> \<not> fle b a"
  by (cases a; cases b) simp_all

lemma fle_flt_trans: "fle a b \<Longrightarrow> flt b c \<Longrightarrow> flt a c"
  by (cases a; cases b; cases c) simp_all

lemma fle_NaN [simp]: "\<not> fle a NaN" "\<not> fle NaN a" "\<not> flt a NaN" "\<not> flt NaN a"
  by (cases a; simp)+

lemma feq_zero [simp]: "feq a (Fin 0) \<longleftrightarrow> a = Fin 0"
  by (cases a) simp_all

lemma fabs_zero [simp]: "fabs a = Fin 0 \<longleftrightarrow> a = Fin 0"
  by (cases a) simp_all

lemma fdiv_error: "fdiv a b = Inl e \<longleftrightarrow> b = Fin 0 \<and> e = ZeroDivisionError"
  by (cases a; cases b; cases e) (auto split: pyfloat.splits)

lemma fdiv_nonzero: "b \<noteq> Fin 0 \<Longrightarrow> fdiv a b = Inr (projr (fdiv a b))"
  by (cases "fdiv a b") (simp_all add: fdiv_error)

lemma fsub_one_nonneg: "fle p (Fin 1) \<Longrightarrow> fle (Fin 0) (fsub (Fin 1) p)"
proof (cases p)
  case (Fin x)
  assume "fle p (Fin 1)"
  with Fin have "0 \<le> 1 + - x" by simp
  then have "fle (Fin 0) (rnd (1 + - x))" by (rule rnd_nonneg)
  with Fin show ?thesis by (simp add: fsub_def)
qed (simp_all add: fsub_def)

lemma fmul_nonneg:
  assumes "fle (Fin 0) a" and "fle (Fin 0) b"
  shows "fmul a b = NaN \<or> fle (Fin 0) (fmul a b)"
proof (cases a)
  case (Fin x)
  note a = this
  show ?thesis
  proof (cases b)
    case (Fin y)
    with a assms have "0 \<le> x * y" by simp
    then have "fle (Fin 0) (rnd (x * y))" by (rule rnd_nonneg)
    with a Fin show ?thesis by simp
  qed (use a assms in auto)
next
  case PInf
  with assms show ?thesis by (cases b) auto
qed (use assms in simp_all)

lemma tp_level_nonneg:
  assumes "fle (Fin 0) lh" and "fle (tp_from_high_pct cfg) (Fin 1)"
  shows "tp_level cfg lh = NaN \<or> fle (Fin 0) (tp_level cfg lh)"
  unfolding tp_level_def
  using assms(1) fsub_one_nonneg [OF assms(2)] by (rule fmul_nonneg)

lemma entry_positive:
  assumes "flt (tp_level cfg lh) entry" and "fle (Fin 0) lh"
    and "fle (tp_from_high_pct cfg) (Fin 1)"
  shows "flt (Fin 0) entry"
proof -
  from assms(1) have "tp_level cfg lh \<noteq> NaN" by auto
  with tp_level_nonneg [OF assms(2,3)] have "fle (Fin 0) (tp_level cfg lh)" by simp
  then show ?thesis using assms(1) by (rule fle_flt_trans)
qed

lemma twice_above:
  assumes "is_double entry" and "flt (Fin 0) entry"
  shows "flt entry (fmul entry (Fin 2))"
proof (cases entry)
  case (Fin e)
  with assms have "rnd e = Fin e" and "0 < e" by simp_all
  then have "flt (Fin e) (rnd (e * 2))" by (rule rnd_twice)
  with Fin show ?thesis by simp
qed (use assms in simp_all)

section \<open>The watchlist\<close>

lemma last_n_snoc: "0 < n \<Longrightarrow> last (last_n n (xs @ [e])) = e"
  by (simp add: last_n_def)

lemma watch_step_new_high:
  assumes "watch state sym' = Some w" and "kline sym' = Some cd"
    and "flt (w_local_high w) (safe_float (k_high cd) (Fin 0))"
    and "0 < stall_candles cfg \<or> w_blocked w"
  shows "watch_step cfg kline tick_map now_ts sym' (state, trades) =
           Inr (state\<lparr> watch := (watch state)(sym' \<mapsto>
                  w\<lparr> w_local_high := safe_float (k_high cd) (Fin 0), w_stall := 0,
                     w_blocked := False, w_updated_ts := now_ts \<rparr>) \<rparr>, trades)"
  using assms by (auto simp add: watch_step_def stall_update_def Let_def)

lemma watch_step_skip:
  assumes "watch state sym' = Some w0" and "kline sym' = Some cd"
    and "stall_candles cfg \<le> w_stall (stall_update w0 (safe_float (k_high cd) (Fin 0)) now_ts)"
    and "\<not> w_blocked w0"
    and "fle (prospective_entry tick_map sym' (safe_float (k_close cd) (Fin 0)))
           (tp_level cfg (w_local_high (stall_update w0 (safe_float (k_high cd) (Fin 0)) now_ts)))"
  shows "watch_step cfg kline tick_map now_ts sym' (state, trades) =
     Inr (state\<lparr> watch := (watch state)(sym' \<mapsto>
                   (stall_update w0 (safe_float (k_high cd) (Fin 0)) now_ts)\<lparr> w_blocked := True \<rparr>),
                last_events := last_n 500 (last_events state @
                   [SKIP_BELOW_TP now_ts sym'
                      (prospective_entry tick_map sym' (safe_float (k_close cd) (Fin 0)))
                      (tp_level cfg
                         (w_local_high (stall_update w0 (safe_float (k_high cd) (Fin 0)) now_ts)))
                      (w_local_high (stall_update w0 (safe_float (k_high cd) (Fin 0)) now_ts))]) \<rparr>,
          trades)"
  using assms
  by (simp add: watch_step_def Let_def prospective_entry_def trigger_tinfo_def tp_level_def)

lemma watch_step_open:
  assumes "watch state sym' = Some w0" and "kline sym' = Some cd"
    and "stall_candles cfg \<le> w_stall (stall_update w0 (safe_float (k_high cd) (Fin 0)) now_ts)"
    and "\<not> w_blocked w0"
    and "\<not> fle (prospective_entry tick_map sym' (safe_float (k_close cd) (Fin 0)))
           (tp_level cfg (w_local_high (stall_update w0 (safe_float (k_high cd) (Fin 0)) now_ts)))"
    and "fdiv (notional_usdt cfg) (prospective_entry tick_map sym' (safe_float (k_close cd) (Fin 0)))
           = Inr qty"
    and "py_int (safe_float (ti_next_funding_ms
             (trigger_tinfo tick_map sym' (safe_float (k_close cd) (Fin 0)))) (Fin 0)) = Inr nf"
  shows "watch_step cfg kline tick_map now_ts sym' (state, trades) =
     (let w = stall_update w0 (safe_float (k_high cd) (Fin 0)) now_ts;
          tinfo = trigger_tinfo tick_map sym' (safe_float (k_close cd) (Fin 0));
          entry = prospective_entry tick_map sym' (safe_float (k_close cd) (Fin 0));
          tr = \<lparr> tr_id = (sym', now_ts), tr_symbol = sym', tr_status = ''OPEN'',
                 tr_created_ts = now_ts, tr_open_ts = now_ts, tr_side = ''SHORT'',
                 tr_notional_usdt = notional_usdt cfg, tr_qty = qty,
                 tr_entry = entry, tr_tp = tp_level cfg (w_local_high w),
                 tr_sl = fmul entry (sl_mult cfg), tr_local_high = w_local_high w,
                 tr_funding_rate_at_open = safe_float (ti_funding_rate tinfo) (Fin 0),
                 tr_next_funding_ms_at_open = nf,
                 tr_close_ts = None, tr_close_reason = None, tr_close_price = None \<rparr>
      in Inr (state\<lparr> cooldowns := (cooldowns state)(sym' \<mapsto> now_ts),
                    last_events := last_n 500 (last_events state @
                      [TRIGGER now_ts sym' entry (tp_level cfg (w_local_high w))
                         (fmul entry (sl_mult cfg)) (w_local_high w)
                         (safe_float (ti_funding_rate tinfo) (Fin 0))]),
                    watch := (watch state)(sym' := None) \<rparr>,
              trades @ [tr]))"
  using assms
  by (simp add: watch_step_def Let_def prospective_entry_def trigger_tinfo_def make_trade_def
      set_cooldown_def tp_level_def)

lemma watch_step_absent:
  "watch state sym' = None \<Longrightarrow>
     watch_step cfg kline tick_map now_ts sym' (state, trades) = Inr (state, trades)"
  by (simp add: watch_step_def)

lemma stall_update_mono:
  "w_local_high (stall_update w high now_ts) = w_local_high w
   \<or> flt (w_local_high w) (w_local_high (stall_update w high now_ts))"
  by (simp add: stall_update_def Let_def)

lemma watch_step_mono:
  assumes "watch state sym' = Some w"
    and "watch_step cfg kline tick_map now_ts sym' (state, trades) = Inr (state', trades')"
    and "watch state' sym' = Some w'"
  shows "w_local_high w' = w_local_high w \<or> flt (w_local_high w) (w_local_high w')"
proof (cases "kline sym'")
  case None
  with assms show ?thesis by (simp add: watch_step_def)
next
  case (Some cd)
  have m: "w_local_high (stall_update w (safe_float (k_high cd) (Fin 0)) now_ts) = w_local_high w
     \<or> flt (w_local_high w)
          (w_local_high (stall_update w (safe_float (k_high cd) (Fin 0)) now_ts))"
    by (rule stall_update_mono)
  from assms Some have "w' = stall_update w (safe_float (k_high cd) (Fin 0)) now_ts
      \<or> w' = (stall_update w (safe_float (k_high cd) (Fin 0)) now_ts)\<lparr> w_blocked := True \<rparr>"
    by (auto simp add: watch_step_def Let_def set_cooldown_def
        split: if_splits sum.splits)
  with m show ?thesis by auto
qed

lemma watch_run_absent:
  "watch (fst st) sym' = None \<Longrightarrow> watch_run cfg sym' cycles st = Inr st"
  by (induction cycles) (simp_all add: watch_step_def Let_def)

lemma watch_run_mono:
  assumes "watch_run cfg sym' cycles (state, trades) = Inr (state', trades')"
    and "watch state sym' = Some w" and "watch state' sym' = Some w'"
  shows "w_local_high w' = w_local_high w \<or> flt (w_local_high w) (w_local_high w')"
  using assms
proof (induction cycles arbitrary: state trades w)
  case Nil
  then show ?case by simp
next
  case (Cons cyc cycles)
  from Cons.prems(1) obtain st1 where
    s1: "watch_step cfg (fst cyc) (fst (snd cyc)) (snd (snd cyc)) sym' (state, trades) = Inr st1"
    and r1: "watch_run cfg sym' cycles st1 = Inr (state', trades')"
    by (auto split: sum.splits)
  obtain state1 trades1 where st1: "st1 = (state1, trades1)" by (cases st1)
  show ?case
  proof (cases "watch state1 sym'")
    case None
    with r1 st1 watch_run_absent [of st1 sym' cfg cycles] have "state' = state1" by simp
    with None Cons.prems(3) show ?thesis by simp
  next
    case (Some w1)
    from watch_step_mono [OF Cons.prems(2) s1 [unfolded st1] Some]
    have a: "w_local_high w1 = w_local_high w \<or> flt (w_local_high w) (w_local_high w1)" .
    from Cons.IH [OF r1 [unfolded st1] Some Cons.prems(3)]
    have b: "w_local_high w' = w_local_high w1 \<or> flt (w_local_high w1) (w_local_high w')" .
    from a b show ?thesis using flt_trans by metis
  qed
qed

lemma watch_run_rising:
  assumes "watch state sym' = Some w"
    and "\<forall>cyc \<in> set cycles. fst cyc sym' \<noteq> None"
    and "sorted_wrt flt (w_local_high w # map (cycle_high sym') cycles)"
    and "0 < stall_candles cfg"
    and "cycles \<noteq> []"
  shows "watch_run cfg sym' cycles (state, trades) =
           Inr (state\<lparr> watch := (watch state)(sym' \<mapsto>
                  w\<lparr> w_local_high := cycle_high sym' (last cycles), w_stall := 0,
                     w_blocked := False, w_updated_ts := snd (snd (last cycles)) \<rparr>) \<rparr>, trades)"
  using assms
proof (induction cycles arbitrary: state w)
  case Nil
  then show ?case by simp
next
  case (Cons cyc cycles)
  from Cons.prems(2) obtain cd where cd: "fst cyc sym' = Some cd" by auto
  then have h: "cycle_high sym' cyc = safe_float (k_high cd) (Fin 0)"
    by (simp add: cycle_high_def)
  with Cons.prems(3) have lt: "flt (w_local_high w) (safe_float (k_high cd) (Fin 0))" by simp
  let ?w1 = "w\<lparr> w_local_high := safe_float (k_high cd) (Fin 0), w_stall := 0,
                     w_blocked := False, w_updated_ts := snd (snd cyc) \<rparr>"
  let ?s1 = "state\<lparr> watch := (watch state)(sym' \<mapsto> ?w1) \<rparr>"
  have step: "watch_step cfg (fst cyc) (fst (snd cyc)) (snd (snd cyc)) sym' (state, trades)
                = Inr (?s1, trades)"
    using watch_step_new_high [where kline = "fst cyc", OF Cons.prems(1) cd lt] Cons.prems(4)
    by simp
  show ?case
  proof (cases "cycles = []")
    case True
    show ?thesis
      unfolding True
      by (simp only: watch_run.simps step sum.case last.simps h if_True simp_thms)
  next
    case False
    have a: "watch ?s1 sym' = Some ?w1" by simp
    have b: "\<forall>cyc \<in> set cycles. fst cyc sym' \<noteq> None" using Cons.prems(2) by simp
    have c: "sorted_wrt flt (w_local_high ?w1 # map (cycle_high sym') cycles)"
      using Cons.prems(3) h by simp
    have eq: "?s1\<lparr> watch := (watch ?s1)(sym' \<mapsto>
                  ?w1\<lparr> w_local_high := cycle_high sym' (last cycles), w_stall := 0,
                     w_blocked := False, w_updated_ts := snd (snd (last cycles)) \<rparr>) \<rparr>
        = state\<lparr> watch := (watch state)(sym' \<mapsto>
                  w\<lparr> w_local_high := cycle_high sym' (last cycles), w_stall := 0,
                     w_blocked := False, w_updated_ts := snd (snd (last cycles)) \<rparr>) \<rparr>"
      by simp
    have l: "last (cyc # cycles) = last cycles" using False by simp
    from Cons.IH [OF a b c Cons.prems(4) False]
    show ?thesis
      by (simp only: watch_run.simps step sum.case l eq)
  qed
qed

text \<open>
  C5. The update of a watch entry by a candle: a high above the local high becomes the local
  high, with the stall count 0 and the entry unblocked; any other high adds exactly 1 to the
  stall count and leaves the local high and the blocked flag as they are. So the local high
  never decreases (it stays or becomes a greater float), in one update and along a run for
  as long as the entry is watched; and, the stall threshold being positive (2 in \<open>CFG\<close>), a
  run of candles with strictly increasing highs above the local high opens no trade, records
  no event and leaves the entry watched, unblocked and with stall count 0.
\<close>

theorem stall_update_rule:
  "(fgt high (w_local_high w) \<longrightarrow>
      stall_update w high now_ts =
        w\<lparr> w_local_high := high, w_stall := 0, w_blocked := False, w_updated_ts := now_ts \<rparr>)
   \<and> (\<not> fgt high (w_local_high w) \<longrightarrow>
      stall_update w high now_ts = w\<lparr> w_stall := w_stall w + 1, w_updated_ts := now_ts \<rparr>
      \<and> w_local_high (stall_update w high now_ts) = w_local_high w
      \<and> w_blocked (stall_update w high now_ts) = w_blocked w)
   \<and> (w_local_high (stall_update w high now_ts) = w_local_high w
        \<or> fgt (w_local_high (stall_update w high now_ts)) (w_local_high w))
   \<and> (watch state sym' = Some w
        \<and> watch_run cfg sym' cycles (state, trades) = Inr (state', trades')
        \<and> watch state' sym' = Some w'
        \<longrightarrow> w_local_high w' = w_local_high w \<or> fgt (w_local_high w') (w_local_high w))
   \<and> (watch state sym' = Some w
        \<and> (\<forall>cyc \<in> set cycles. fst cyc sym' \<noteq> None)
        \<and> sorted_wrt flt (w_local_high w # map (cycle_high sym') cycles)
        \<and> 0 < stall_candles cfg \<and> cycles \<noteq> []
        \<longrightarrow> watch_run cfg sym' cycles (state, trades) =
              Inr (state\<lparr> watch := (watch state)(sym' \<mapsto>
                     w\<lparr> w_local_high := cycle_high sym' (last cycles), w_stall := 0,
                        w_blocked := False, w_updated_ts := snd (snd (last cycles)) \<rparr>) \<rparr>,
                   trades))"
proof (intro conjI impI)
  assume "fgt high (w_local_high w)"
  then show "stall_update w high now_ts =
        w\<lparr> w_local_high := high, w_stall := 0, w_blocked := False, w_updated_ts := now_ts \<rparr>"
    by (simp add: stall_update_def Let_def)
next
  assume n: "\<not> fgt high (w_local_high w)"
  then show "stall_update w high now_ts = w\<lparr> w_stall := w_stall w + 1, w_updated_ts := now_ts \<rparr>"
    by (simp add: stall_update_def Let_def)
  from n show "w_local_high (stall_update w high now_ts) = w_local_high w"
    by (simp add: stall_update_def Let_def)
  from n show "w_blocked (stall_update w high now_ts) = w_blocked w"
    by (simp add: stall_update_def Let_def)
next
  show "w_local_high (stall_update w high now_ts) = w_local_high w
        \<or> fgt (w_local_high (stall_update w high now_ts)) (w_local_high w)"
    using stall_update_mono [of w high now_ts] by simp
next
  assume "watch state sym' = Some w
        \<and> watch_run cfg sym' cycles (state, trades) = Inr (state', trades')
        \<and> watch state' sym' = Some w'"
  then show "w_local_high w' = w_local_high w \<or> fgt (w_local_high w') (w_local_high w)"
    using watch_run_mono [of cfg sym' cycles state trades state' trades' w w'] by simp
next
  assume a: "watch state sym' = Some w
        \<and> (\<forall>cyc \<in> set cycles. fst cyc sym' \<noteq> None)
        \<and> sorted_wrt flt (w_local_high w # map (cycle_high sym') cycles)
        \<and> 0 < stall_candles cfg \<and> cycles \<noteq> []"
  then show "watch_run cfg sym' cycles (state, trades) =
              Inr (state\<lparr> watch := (watch state)(sym' \<mapsto>
                     w\<lparr> w_local_high := cycle_high sym' (last cycles), w_stall := 0,
                        w_blocked := False, w_updated_ts := snd (snd (last cycles)) \<rparr>) \<rparr>,
                   trades)"
    using watch_run_rising [of state sym' w cycles cfg trades] by blast
qed

text \<open>
  C4. A watched symbol with a candle whose stall count has reached the threshold, which was
  not blocked and whose prospective entry price is at most the take-profit level
  \<^verbatim>\<open>local_high * (1.0 - tp_from_high_pct)\<close>, as the floats compute and compare it: no trade
  is opened and no cooldown set, the entry stays in the watchlist with its blocked flag set,
  and a SKIP_BELOW_TP event is the last recorded event. A later candle whose high exceeds
  the local high resets the entry to unblocked with stall count 0, and opens no trade.
\<close>

theorem stalled_below_tp_blocks:
  assumes "watch state sym' = Some w0" and "kline sym' = Some cd"
    and "stall_candles cfg \<le> w_stall (stall_update w0 (safe_float (k_high cd) (Fin 0)) now_ts)"
    and "\<not> w_blocked w0"
    and "fle (prospective_entry tick_map sym' (safe_float (k_close cd) (Fin 0)))
           (tp_level cfg (w_local_high (stall_update w0 (safe_float (k_high cd) (Fin 0)) now_ts)))"
  shows "(let w = stall_update w0 (safe_float (k_high cd) (Fin 0)) now_ts;
              entry = prospective_entry tick_map sym' (safe_float (k_close cd) (Fin 0));
              ev = SKIP_BELOW_TP now_ts sym' entry (tp_level cfg (w_local_high w))
                     (w_local_high w);
              state' = state\<lparr> watch := (watch state)(sym' \<mapsto> w\<lparr> w_blocked := True \<rparr>),
                              last_events := last_n 500 (last_events state @ [ev]) \<rparr>
          in watch_step cfg kline tick_map now_ts sym' (state, trades) = Inr (state', trades)
           \<and> watch state' sym' = Some (w\<lparr> w_blocked := True \<rparr>)
           \<and> last (last_events state') = ev
           \<and> cooldowns state' = cooldowns state
           \<and> (\<forall>kline2 cd2 tick_map2 now_ts2.
                 kline2 sym' = Some cd2
                 \<and> fgt (safe_float (k_high cd2) (Fin 0)) (w_local_high w) \<longrightarrow>
                 watch_step cfg kline2 tick_map2 now_ts2 sym' (state', trades) =
                   Inr (state'\<lparr> watch := (watch state')(sym' \<mapsto>
                          w\<lparr> w_local_high := safe_float (k_high cd2) (Fin 0), w_stall := 0,
                             w_blocked := False, w_updated_ts := now_ts2 \<rparr>) \<rparr>, trades)))"
proof -
  let ?w = "stall_update w0 (safe_float (k_high cd) (Fin 0)) now_ts"
  let ?entry = "prospective_entry tick_map sym' (safe_float (k_close cd) (Fin 0))"
  let ?ev = "SKIP_BELOW_TP now_ts sym' ?entry (tp_level cfg (w_local_high ?w)) (w_local_high ?w)"
  let ?state' = "state\<lparr> watch := (watch state)(sym' \<mapsto> ?w\<lparr> w_blocked := True \<rparr>),
                        last_events := last_n 500 (last_events state @ [?ev]) \<rparr>"
  have step: "watch_step cfg kline tick_map now_ts sym' (state, trades) = Inr (?state', trades)"
    by (rule watch_step_skip [where kline = kline, OF assms])
  have w: "watch ?state' sym' = Some (?w\<lparr> w_blocked := True \<rparr>)" by simp
  have ev: "last (last_events ?state') = ?ev" by (simp add: last_n_snoc)
  have cd: "cooldowns ?state' = cooldowns state" by simp
  have nxt: "watch_step cfg kline2 tick_map2 now_ts2 sym' (?state', trades) =
                   Inr (?state'\<lparr> watch := (watch ?state')(sym' \<mapsto>
                          ?w\<lparr> w_local_high := safe_float (k_high cd2) (Fin 0), w_stall := 0,
                             w_blocked := False, w_updated_ts := now_ts2 \<rparr>) \<rparr>, trades)"
    if "kline2 sym' = Some cd2" "fgt (safe_float (k_high cd2) (Fin 0)) (w_local_high ?w)"
    for kline2 cd2 tick_map2 now_ts2
    using watch_step_new_high [where state = ?state' and w = "?w\<lparr> w_blocked := True \<rparr>"
        and kline = kline2 and cd = cd2 and cfg = cfg and tick_map = tick_map2
        and now_ts = now_ts2 and sym' = sym' and trades = trades] that
    by simp
  show ?thesis
    unfolding Let_def using step w ev cd nxt by blast
qed

text \<open>
  C3. A watched symbol with a candle whose stall count has reached the threshold, which was
  not blocked and whose prospective entry price exceeds the take-profit level
  \<^verbatim>\<open>local_high * (1.0 - tp_from_high_pct)\<close>, as the floats compute and compare it: exactly
  one trade is appended, OPEN and SHORT, with that take-profit, stop-loss \<^verbatim>\<open>entry * sl_mult\<close>
  (above the entry), quantity \<^verbatim>\<open>notional / entry\<close> and the ticker's funding rate and next
  funding time; the cooldown of the symbol is set to the time of the open, a TRIGGER event
  is recorded and the symbol is removed from the watchlist. The prices are what the
  exchange sends and the configuration is as in \<open>CFG\<close>: the local high is not negative, the
  entry price is a finite double, the ticker's next funding time converts to an integer, the
  take-profit fraction is at most 1 and the stop-loss multiplier is 2.
\<close>

theorem stalled_above_tp_opens_trade:
  assumes "watch state sym' = Some w0" and "kline sym' = Some cd"
    and "stall_candles cfg \<le> w_stall (stall_update w0 (safe_float (k_high cd) (Fin 0)) now_ts)"
    and "\<not> w_blocked w0"
    and "fgt (prospective_entry tick_map sym' (safe_float (k_close cd) (Fin 0)))
           (tp_level cfg (w_local_high (stall_update w0 (safe_float (k_high cd) (Fin 0)) now_ts)))"
    and "fge (w_local_high (stall_update w0 (safe_float (k_high cd) (Fin 0)) now_ts)) (Fin 0)"
    and "is_double (prospective_entry tick_map sym' (safe_float (k_close cd) (Fin 0)))"
    and "py_int (safe_float (ti_next_funding_ms
             (trigger_tinfo tick_map sym' (safe_float (k_close cd) (Fin 0)))) (Fin 0)) = Inr nf"
    and "fle (tp_from_high_pct cfg) (Fin 1)"
    and "sl_mult cfg = Fin 2"
  shows "(let w = stall_update w0 (safe_float (k_high cd) (Fin 0)) now_ts;
              tinfo = trigger_tinfo tick_map sym' (safe_float (k_close cd) (Fin 0));
              entry = prospective_entry tick_map sym' (safe_float (k_close cd) (Fin 0));
              tr = \<lparr> tr_id = (sym', now_ts), tr_symbol = sym', tr_status = ''OPEN'',
                     tr_created_ts = now_ts, tr_open_ts = now_ts, tr_side = ''SHORT'',
                     tr_notional_usdt = notional_usdt cfg,
                     tr_qty = projr (fdiv (notional_usdt cfg) entry),
                     tr_entry = entry, tr_tp = tp_level cfg (w_local_high w),
                     tr_sl = fmul entry (sl_mult cfg), tr_local_high = w_local_high w,
                     tr_funding_rate_at_open = safe_float (ti_funding_rate tinfo) (Fin 0),
                     tr_next_funding_ms_at_open = nf,
                     tr_close_ts = None, tr_close_reason = None, tr_close_price = None \<rparr>;
              state' = state\<lparr> cooldowns := (cooldowns state)(sym' \<mapsto> now_ts),
                         last_events := last_n 500 (last_events state @
                           [TRIGGER now_ts sym' entry (tr_tp tr) (tr_sl tr) (w_local_high w)
                              (tr_funding_rate_at_open tr)]),
                         watch := (watch state)(sym' := None) \<rparr>
          in watch_step cfg kline tick_map now_ts sym' (state, trades)
               = Inr (state', trades @ [tr])
           \<and> fdiv (notional_usdt cfg) entry = Inr (tr_qty tr)
           \<and> fgt (tr_sl tr) (tr_entry tr)
           \<and> watch state' sym' = None
           \<and> cooldowns state' sym' = Some now_ts)"
proof -
  let ?w = "stall_update w0 (safe_float (k_high cd) (Fin 0)) now_ts"
  let ?entry = "prospective_entry tick_map sym' (safe_float (k_close cd) (Fin 0))"
  from assms(5) have gt: "flt (tp_level cfg (w_local_high ?w)) ?entry" by simp
  from assms(6) have lh: "fle (Fin 0) (w_local_high ?w)" by simp
  have pos: "flt (Fin 0) ?entry" using gt lh assms(9) by (rule entry_positive)
  then have nz: "?entry \<noteq> Fin 0" by auto
  have q: "fdiv (notional_usdt cfg) ?entry = Inr (projr (fdiv (notional_usdt cfg) ?entry))"
    using nz by (rule fdiv_nonzero)
  have nle: "\<not> fle ?entry (tp_level cfg (w_local_high ?w))" using gt by (rule flt_not_fle)
  have sl: "flt ?entry (fmul ?entry (sl_mult cfg))"
    using twice_above [OF assms(7) pos] assms(10) by simp
  from watch_step_open [where kline = kline and trades = trades and state = state,
      OF assms(1-4) nle q assms(8)] q sl
  show ?thesis by (simp add: Let_def)
qed

section \<open>The watchlist on concrete prices\<close>

lemma cfg_tp_factor: "fsub (Fin 1) (tp_from_high_pct CFG) = Fin d07"
proof -
  have "rnd (1 + - (5404319552844595 / 18014398509481984))
      = Fin (of_int (rne ((1 + - (5404319552844595 / 18014398509481984)) / pow2 (- 1 - 52)))
             * pow2 (- 1 - 52))"
    by (rule rnd_normal) (simp_all add: pow2_def)
  also have "\<dots> = Fin d07" by (simp add: pow2_def rne_def d07_def)
  finally show ?thesis by (simp add: fsub_def CFG_def)
qed

lemma tp_level_100: "tp_level CFG (Fin 100) = Fin 70"
proof -
  have "rnd (100 * d07)
      = Fin (of_int (rne (100 * d07 / pow2 (6 - 52))) * pow2 (6 - 52))"
    by (rule rnd_normal) (simp_all add: pow2_def d07_def)
  also have "\<dots> = Fin 70" by (simp add: pow2_def rne_def d07_def)
  finally show ?thesis by (simp add: tp_level_def cfg_tp_factor)
qed

lemma tp_level_22_5: "tp_level CFG (Fin (45 / 2)) = Fin d15_75_below"
proof -
  have "rnd (45 / 2 * d07)
      = Fin (of_int (rne (45 / 2 * d07 / pow2 (3 - 52))) * pow2 (3 - 52))"
    by (rule rnd_normal) (simp_all add: pow2_def d07_def)
  also have "\<dots> = Fin d15_75_below" by (simp add: pow2_def rne_def d07_def d15_75_below_def)
  finally show ?thesis by (simp add: tp_level_def cfg_tp_factor)
qed

lemma tp_level_23_375: "tp_level CFG (Fin (187 / 8)) = Fin d16_3625"
proof -
  have "rnd (187 / 8 * d07)
      = Fin (of_int (rne (187 / 8 * d07 / pow2 (4 - 52))) * pow2 (4 - 52))"
    by (rule rnd_normal) (simp_all add: pow2_def d07_def)
  also have "\<dots> = Fin d16_3625" by (simp add: pow2_def rne_def d07_def d16_3625_def)
  finally show ?thesis by (simp add: tp_level_def cfg_tp_factor)
qed

lemma ex_watch: "watch (ex_state lh) ''PUMPUSDT'' = Some (ex_entry lh)"
  by (simp add: ex_state_def)

lemma ex_kline_at: "ex_kline_at h c ''PUMPUSDT'' = Some (ex_candle_at h c)"
  by (simp add: ex_kline_at_def)

lemma ex_candle_reads:
  "safe_float (k_high (ex_candle_at h c)) (Fin 0) = Fin h"
  "safe_float (k_close (ex_candle_at h c)) (Fin 0) = Fin c"
  by (simp_all add: safe_float_def ex_candle_at_def)

lemma ex_entry_fields:
  "w_local_high (ex_entry lh) = Fin lh" "w_stall (ex_entry lh) = 1" "\<not> w_blocked (ex_entry lh)"
  by (simp_all add: ex_entry_def)

lemma ex_stall_update:
  "stall_update (ex_entry lh) (Fin lh) now_ts
     = (ex_entry lh)\<lparr> w_stall := 2, w_updated_ts := now_ts \<rparr>"
  by (simp add: stall_update_def ex_entry_def Let_def)

lemma ex_entries:
  "prospective_entry (ex_tick p) ''PUMPUSDT'' c = Fin p"
  "trigger_tinfo (ex_tick p) ''PUMPUSDT'' c = \<lparr> ti_last = Some (Fin p),
     ti_funding_rate = Some (Fin (- (5764607523034235 / 576460752303423488))),
     ti_next_funding_ms = Some (Fin 1700000000000) \<rparr>"
  by (simp_all add: prospective_entry_def trigger_tinfo_def ex_tick_def safe_float_def)

theorem stall_update_rule_witness:
  "fgt (Fin 110) (w_local_high (ex_entry 100))
   \<and> stall_update (ex_entry 100) (Fin 110) 1000 =
       (ex_entry 100)\<lparr> w_local_high := Fin 110, w_stall := 0, w_blocked := False,
          w_updated_ts := 1000 \<rparr>
   \<and> \<not> fgt (Fin 100) (w_local_high (ex_entry 100))
   \<and> stall_update (ex_entry 100) (Fin 100) 1000
       = (ex_entry 100)\<lparr> w_stall := 2, w_updated_ts := 1000 \<rparr>
   \<and> watch (ex_state 100) ''PUMPUSDT'' = Some (ex_entry 100)
   \<and> sorted_wrt flt (w_local_high (ex_entry 100) # map (cycle_high ''PUMPUSDT'') ex_cycles)
   \<and> 0 < stall_candles CFG \<and> ex_cycles \<noteq> []
   \<and> watch_run CFG ''PUMPUSDT'' ex_cycles (ex_state 100, [])
       = Inr ((ex_state 100)\<lparr> watch := [''PUMPUSDT'' \<mapsto> ex_risen] \<rparr>, [])
   \<and> fgt (w_local_high ex_risen) (w_local_high (ex_entry 100))"
proof -
  have h1: "fgt (Fin 110) (w_local_high (ex_entry 100))"
    and h2: "\<not> fgt (Fin 100) (w_local_high (ex_entry 100))"
    by (simp_all add: ex_entry_def)
  have c1: "\<forall>cyc \<in> set ex_cycles. fst cyc ''PUMPUSDT'' \<noteq> None"
    by (simp add: ex_cycles_def ex_kline_at_def)
  have c2: "sorted_wrt flt (w_local_high (ex_entry 100) # map (cycle_high ''PUMPUSDT'') ex_cycles)"
    by (simp add: ex_cycles_def cycle_high_def ex_kline_at ex_candle_reads ex_entry_fields)
  have c3: "0 < stall_candles CFG" by (simp add: CFG_def)
  have c4: "ex_cycles \<noteq> []" by (simp add: ex_cycles_def)
  have l: "cycle_high ''PUMPUSDT'' (last ex_cycles) = Fin 120" "snd (snd (last ex_cycles)) = 2000"
    by (simp_all add: ex_cycles_def cycle_high_def ex_kline_at ex_candle_reads)
  have m: "(watch (ex_state 100))(''PUMPUSDT'' \<mapsto> ex_risen) = [''PUMPUSDT'' \<mapsto> ex_risen]"
    by (simp add: ex_state_def)
  note r = stall_update_rule [where w = "ex_entry 100" and state = "ex_state 100"
      and sym' = "''PUMPUSDT''" and cfg = CFG and cycles = ex_cycles and trades = "[]"
      and now_ts = 1000
      and state' = "(ex_state 100)\<lparr> watch := [''PUMPUSDT'' \<mapsto> ex_risen] \<rparr>" and trades' = "[]"
      and w' = ex_risen]
  from r [where high = "Fin 110"] h1
  have a: "stall_update (ex_entry 100) (Fin 110) 1000 =
       (ex_entry 100)\<lparr> w_local_high := Fin 110, w_stall := 0, w_blocked := False,
          w_updated_ts := 1000 \<rparr>"
    by blast
  from r [where high = "Fin 100"] h2
  have "stall_update (ex_entry 100) (Fin 100) 1000
          = (ex_entry 100)\<lparr> w_stall := w_stall (ex_entry 100) + 1, w_updated_ts := 1000 \<rparr>"
    by blast
  then have b: "stall_update (ex_entry 100) (Fin 100) 1000
       = (ex_entry 100)\<lparr> w_stall := 2, w_updated_ts := 1000 \<rparr>"
    by (simp add: ex_entry_fields)
  from r [where high = "Fin 110"] ex_watch [of 100] c1 c2 c3 c4
  have "watch_run CFG ''PUMPUSDT'' ex_cycles (ex_state 100, []) =
          Inr ((ex_state 100)\<lparr> watch := (watch (ex_state 100))(''PUMPUSDT'' \<mapsto>
                 (ex_entry 100)\<lparr> w_local_high := cycle_high ''PUMPUSDT'' (last ex_cycles),
                    w_stall := 0, w_blocked := False,
                    w_updated_ts := snd (snd (last ex_cycles)) \<rparr>) \<rparr>, [])"
    by blast
  then have c: "watch_run CFG ''PUMPUSDT'' ex_cycles (ex_state 100, [])
       = Inr ((ex_state 100)\<lparr> watch := [''PUMPUSDT'' \<mapsto> ex_risen] \<rparr>, [])"
    using m by (simp only: l ex_risen_def [symmetric])
  have "watch ((ex_state 100)\<lparr> watch := [''PUMPUSDT'' \<mapsto> ex_risen] \<rparr>) ''PUMPUSDT''
          = Some ex_risen"
    by simp
  with r [where high = "Fin 110"] ex_watch [of 100] c
  have "w_local_high ex_risen = w_local_high (ex_entry 100)
          \<or> fgt (w_local_high ex_risen) (w_local_high (ex_entry 100))" by blast
  then have d: "fgt (w_local_high ex_risen) (w_local_high (ex_entry 100))"
    by (simp add: ex_risen_def ex_entry_def)
  from h1 h2 a b ex_watch [of 100] c2 c3 c4 c d show ?thesis by blast
qed

text \<open>
  The local high \<^verbatim>\<open>23.375\<close> and the entry price \<^verbatim>\<open>16.3625\<close>: the take-profit level
  \<^verbatim>\<open>23.375 * (1.0 - 0.30)\<close> is the double \<^verbatim>\<open>16.3625\<close>, the entry is not above it and the symbol
  is blocked. A candle with the high 24 resets it.
\<close>

theorem stalled_below_tp_blocks_witness:
  "watch (ex_state (187 / 8)) ''PUMPUSDT'' = Some (ex_entry (187 / 8))
   \<and> ex_kline_at (187 / 8) 16 ''PUMPUSDT'' = Some (ex_candle_at (187 / 8) 16)
   \<and> stall_candles CFG \<le> w_stall (stall_update (ex_entry (187 / 8)) (Fin (187 / 8)) 1000)
   \<and> \<not> w_blocked (ex_entry (187 / 8))
   \<and> tp_level CFG (Fin (187 / 8)) = Fin d16_3625
   \<and> fle (prospective_entry (ex_tick d16_3625) ''PUMPUSDT'' (Fin 16))
        (tp_level CFG (w_local_high (stall_update (ex_entry (187 / 8)) (Fin (187 / 8)) 1000)))
   \<and> watch_step CFG (ex_kline_at (187 / 8) 16) (ex_tick d16_3625) 1000 ''PUMPUSDT''
        (ex_state (187 / 8), [])
        = Inr (ex_blocked_state, [])
   \<and> ex_kline_at 24 20 ''PUMPUSDT'' = Some (ex_candle_at 24 20)
   \<and> fgt (safe_float (k_high (ex_candle_at 24 20)) (Fin 0))
        (w_local_high (stall_update (ex_entry (187 / 8)) (Fin (187 / 8)) 1000))
   \<and> watch_step CFG (ex_kline_at 24 20) (ex_tick 20) 2000 ''PUMPUSDT'' (ex_blocked_state, [])
        = Inr (ex_blocked_state\<lparr> watch := [''PUMPUSDT'' \<mapsto>
                 (ex_entry (187 / 8))\<lparr> w_local_high := Fin 24, w_stall := 0,
                   w_blocked := False, w_updated_ts := 2000 \<rparr>] \<rparr>, [])"
proof -
  let ?w = "(ex_entry (187 / 8))\<lparr> w_stall := 2, w_updated_ts := 1000 \<rparr>"
  have w: "w_local_high ?w = Fin (187 / 8)" "w_stall ?w = 2" by (simp_all add: ex_entry_fields)
  have s: "stall_candles CFG \<le> w_stall (stall_update (ex_entry (187 / 8)) (Fin (187 / 8)) 1000)"
    by (simp add: ex_stall_update CFG_def)
  have nb: "\<not> w_blocked (ex_entry (187 / 8))" by (simp add: ex_entry_fields)
  have e: "fle (prospective_entry (ex_tick d16_3625) ''PUMPUSDT'' (Fin 16))
        (tp_level CFG (w_local_high (stall_update (ex_entry (187 / 8)) (Fin (187 / 8)) 1000)))"
    by (simp add: ex_entries ex_stall_update w tp_level_23_375)
  have hi: "fgt (safe_float (k_high (ex_candle_at 24 20)) (Fin 0))
        (w_local_high (stall_update (ex_entry (187 / 8)) (Fin (187 / 8)) 1000))"
    by (simp add: ex_candle_reads ex_stall_update w)
  have st: "(ex_state (187 / 8))\<lparr> watch := (watch (ex_state (187 / 8)))(''PUMPUSDT'' \<mapsto>
                  ?w\<lparr> w_blocked := True \<rparr>),
               last_events := last_n 500 (last_events (ex_state (187 / 8)) @
                 [SKIP_BELOW_TP 1000 ''PUMPUSDT'' (Fin d16_3625) (Fin d16_3625) (Fin (187 / 8))]) \<rparr>
             = ex_blocked_state"
    by (simp add: ex_blocked_state_def ex_state_def last_n_def ex_entry_def)
  note r = stalled_below_tp_blocks [where state = "ex_state (187 / 8)" and sym' = "''PUMPUSDT''"
      and ?w0.0 = "ex_entry (187 / 8)" and kline = "ex_kline_at (187 / 8) 16"
      and cd = "ex_candle_at (187 / 8) 16" and cfg = CFG
      and now_ts = 1000 and tick_map = "ex_tick d16_3625" and trades = "[]",
      unfolded ex_candle_reads, OF ex_watch ex_kline_at s nb e,
      unfolded ex_entries ex_stall_update w tp_level_23_375 Let_def st]
  from r have a: "watch_step CFG (ex_kline_at (187 / 8) 16) (ex_tick d16_3625) 1000 ''PUMPUSDT''
        (ex_state (187 / 8), []) = Inr (ex_blocked_state, [])" by blast
  have hi': "fgt (safe_float (k_high (ex_candle_at 24 20)) (Fin 0)) (Fin (187 / 8))"
    by (simp add: ex_candle_reads)
  from r ex_kline_at [of 24 20] hi'
  have "watch_step CFG (ex_kline_at 24 20) (ex_tick 20) 2000 ''PUMPUSDT'' (ex_blocked_state, []) =
          Inr (ex_blocked_state\<lparr> watch := (watch ex_blocked_state)(''PUMPUSDT'' \<mapsto>
                 ?w\<lparr> w_local_high := safe_float (k_high (ex_candle_at 24 20)) (Fin 0),
                    w_stall := 0, w_blocked := False, w_updated_ts := 2000 \<rparr>) \<rparr>, [])"
    by blast
  then have b: "watch_step CFG (ex_kline_at 24 20) (ex_tick 20) 2000 ''PUMPUSDT''
        (ex_blocked_state, [])
        = Inr (ex_blocked_state\<lparr> watch := [''PUMPUSDT'' \<mapsto>
                 (ex_entry (187 / 8))\<lparr> w_local_high := Fin 24, w_stall := 0,
                   w_blocked := False, w_updated_ts := 2000 \<rparr>] \<rparr>, [])"
    by (simp add: ex_candle_reads ex_blocked_state_def ex_entry_def)
  from ex_watch [of "187 / 8"] ex_kline_at [of "187 / 8" 16] s nb tp_level_23_375 e a
    ex_kline_at [of 24 20] hi b
  show ?thesis by blast
qed

lemma qty_15_75: "fdiv (Fin 20) (Fin (63 / 4)) = Inr (Fin (1429714167419205 / 1125899906842624))"
proof -
  have "rnd (20 / (63 / 4))
      = Fin (of_int (rne (20 / (63 / 4) / pow2 (0 - 52))) * pow2 (0 - 52))"
    by (rule rnd_normal) (simp_all add: pow2_def)
  also have "\<dots> = Fin (1429714167419205 / 1125899906842624)"
    by (simp add: pow2_def rne_def)
  finally show ?thesis by simp
qed

lemma double_15_75: "rnd (63 / 4) = Fin (63 / 4)" "rnd (63 / 2) = Fin (63 / 2)"
  using rnd_dyadic [of 63 2] rnd_dyadic [of 63 1] by simp_all

text \<open>
  The local high \<^verbatim>\<open>22.5\<close> and the entry price \<^verbatim>\<open>15.75\<close>: the take-profit level
  \<^verbatim>\<open>22.5 * (1.0 - 0.30)\<close> is the double \<^verbatim>\<open>15.749999999999998\<close>, the entry is above it and the
  trade is opened.
\<close>

theorem stalled_above_tp_opens_trade_witness:
  "watch (ex_state (45 / 2)) ''PUMPUSDT'' = Some (ex_entry (45 / 2))
   \<and> ex_kline_at (45 / 2) 16 ''PUMPUSDT'' = Some (ex_candle_at (45 / 2) 16)
   \<and> stall_candles CFG \<le> w_stall (stall_update (ex_entry (45 / 2)) (Fin (45 / 2)) 1000)
   \<and> \<not> w_blocked (ex_entry (45 / 2))
   \<and> tp_level CFG (Fin (45 / 2)) = Fin d15_75_below
   \<and> fgt (prospective_entry (ex_tick (63 / 4)) ''PUMPUSDT'' (Fin 16))
        (tp_level CFG (w_local_high (stall_update (ex_entry (45 / 2)) (Fin (45 / 2)) 1000)))
   \<and> fge (w_local_high (stall_update (ex_entry (45 / 2)) (Fin (45 / 2)) 1000)) (Fin 0)
   \<and> is_double (prospective_entry (ex_tick (63 / 4)) ''PUMPUSDT'' (Fin 16))
   \<and> py_int (safe_float (ti_next_funding_ms
          (trigger_tinfo (ex_tick (63 / 4)) ''PUMPUSDT'' (Fin 16))) (Fin 0)) = Inr 1700000000000
   \<and> fle (tp_from_high_pct CFG) (Fin 1)
   \<and> sl_mult CFG = Fin 2
   \<and> watch_step CFG (ex_kline_at (45 / 2) 16) (ex_tick (63 / 4)) 1000 ''PUMPUSDT''
        (ex_state (45 / 2), [])
        = Inr (ex_opened_state, [ex_opened_trade])
   \<and> fgt (tr_sl ex_opened_trade) (tr_entry ex_opened_trade)"
proof -
  let ?w = "(ex_entry (45 / 2))\<lparr> w_stall := 2, w_updated_ts := 1000 \<rparr>"
  have w: "w_local_high ?w = Fin (45 / 2)" "w_stall ?w = 2" by (simp_all add: ex_entry_fields)
  have s: "stall_candles CFG \<le> w_stall (stall_update (ex_entry (45 / 2)) (Fin (45 / 2)) 1000)"
    by (simp add: ex_stall_update CFG_def)
  have nb: "\<not> w_blocked (ex_entry (45 / 2))" by (simp add: ex_entry_fields)
  have g: "fgt (prospective_entry (ex_tick (63 / 4)) ''PUMPUSDT'' (Fin 16))
        (tp_level CFG (w_local_high (stall_update (ex_entry (45 / 2)) (Fin (45 / 2)) 1000)))"
    by (simp add: ex_entries ex_stall_update w tp_level_22_5 d15_75_below_def)
  have lh: "fge (w_local_high (stall_update (ex_entry (45 / 2)) (Fin (45 / 2)) 1000)) (Fin 0)"
    by (simp add: ex_stall_update w)
  have dbl: "is_double (prospective_entry (ex_tick (63 / 4)) ''PUMPUSDT'' (Fin 16))"
    by (simp add: ex_entries double_15_75)
  have nf: "py_int (safe_float (ti_next_funding_ms
          (trigger_tinfo (ex_tick (63 / 4)) ''PUMPUSDT'' (Fin 16))) (Fin 0)) = Inr 1700000000000"
    by (simp add: ex_entries safe_float_def)
  have pct: "fle (tp_from_high_pct CFG) (Fin 1)" and sl: "sl_mult CFG = Fin 2"
    by (simp_all add: CFG_def)
  have q: "fdiv (notional_usdt CFG) (Fin (63 / 4)) = Inr (Fin (1429714167419205 / 1125899906842624))"
    using qty_15_75 by (simp add: CFG_def)
  have m: "fmul (Fin (63 / 4)) (sl_mult CFG) = Fin (63 / 2)"
    using double_15_75 by (simp add: CFG_def)
  note r = stalled_above_tp_opens_trade [where state = "ex_state (45 / 2)"
      and sym' = "''PUMPUSDT''" and ?w0.0 = "ex_entry (45 / 2)"
      and kline = "ex_kline_at (45 / 2) 16" and cd = "ex_candle_at (45 / 2) 16" and cfg = CFG
      and now_ts = 1000 and tick_map = "ex_tick (63 / 4)" and trades = "[]"
      and nf = 1700000000000,
      unfolded ex_candle_reads, OF ex_watch ex_kline_at s nb g lh dbl nf pct sl,
      unfolded ex_entries ex_stall_update w tp_level_22_5 Let_def q m]
  from r have "watch_step CFG (ex_kline_at (45 / 2) 16) (ex_tick (63 / 4)) 1000 ''PUMPUSDT''
        (ex_state (45 / 2), []) = Inr (ex_opened_state, [ex_opened_trade])"
    by (simp add: ex_opened_state_def ex_opened_trade_def ex_state_def last_n_def safe_float_def
        CFG_def)
  moreover have "fgt (tr_sl ex_opened_trade) (tr_entry ex_opened_trade)"
    by (simp add: ex_opened_trade_def)
  ultimately show ?thesis
    using ex_watch [of "45 / 2"] ex_kline_at [of "45 / 2" 16] s nb tp_level_22_5 g lh dbl nf pct sl
    by blast
qed

section \<open>The funding guard\<close>

lemma fmul_NaN [simp]: "fmul NaN a = NaN" "fmul a NaN = NaN"
  by (cases a; simp)+

lemma fle_total: "a \<noteq> NaN \<Longrightarrow> b \<noteq> NaN \<Longrightarrow> fle a b \<or> flt b a"
  by (cases a; cases b) auto

lemma fsub_nonpos: "fle a b \<Longrightarrow> fsub a b = NaN \<or> fle (fsub a b) (Fin 0)"
proof (cases a)
  case (Fin x)
  note a = this
  assume le: "fle a b"
  show ?thesis
  proof (cases b)
    case (Fin y)
    with a le have "x + - y \<le> 0" by simp
    then have "fle (rnd (x + - y)) (Fin 0)" by (rule rnd_nonpos)
    with a Fin show ?thesis by (simp add: fsub_def)
  qed (use a le in \<open>simp_all add: fsub_def\<close>)
next
  case NInf
  assume "fle a b"
  with NInf show ?thesis by (cases b) (simp_all add: fsub_def)
next
  case PInf
  assume "fle a b"
  with PInf show ?thesis by (cases b) (simp_all add: fsub_def)
next
  case NaN
  assume "fle a b"
  with NaN show ?thesis by simp
qed

lemma fmul_nonpos_nonneg:
  assumes "d = NaN \<or> fle d (Fin 0)" and "fle (Fin 0) q"
  shows "\<not> flt (Fin 0) (fmul d q)"
proof (cases d)
  case (Fin z)
  note d = this
  show ?thesis
  proof (cases q)
    case (Fin y)
    with d assms have "z * y \<le> 0" by (simp add: mult_nonpos_nonneg)
    then have "fle (rnd (z * y)) (Fin 0)" by (rule rnd_nonpos)
    then have "\<not> flt (Fin 0) (rnd (z * y))" using flt_not_fle by blast
    with d Fin show ?thesis by simp
  qed (use d assms in auto)
next
  case NInf
  with assms show ?thesis by (cases q) auto
next
  case PInf
  with assms show ?thesis by simp
next
  case NaN
  then show ?thesis by simp
qed

lemma spec_remaining_at_tp:
  assumes "fle mark (tr_tp tr)" and "fle (Fin 0) (tr_qty tr)"
  shows "spec_remaining tr mark = Fin 0"
proof -
  have "\<not> flt (Fin 0) (fmul (fsub mark (tr_tp tr)) (tr_qty tr))"
    using fsub_nonpos [OF assms(1)] assms(2) by (rule fmul_nonpos_nonneg)
  then show ?thesis by (simp add: spec_remaining_def py_max0_def)
qed

lemma remaining_eq_spec:
  assumes "fle (Fin 0) (tr_qty tr)"
  shows "fle (remaining_profit_to_tp tr mark) (Fin 0) \<or> remaining_profit_to_tp tr mark = NaN
           \<longleftrightarrow> \<not> flt (Fin 0) (spec_remaining tr mark)"
    and "flt (Fin 0) (spec_remaining tr mark)
           \<Longrightarrow> remaining_profit_to_tp tr mark = spec_remaining tr mark"
proof -
  let ?v = "fmul (fsub mark (tr_tp tr)) (tr_qty tr)"
  show "fle (remaining_profit_to_tp tr mark) (Fin 0) \<or> remaining_profit_to_tp tr mark = NaN
           \<longleftrightarrow> \<not> flt (Fin 0) (spec_remaining tr mark)"
  proof (cases "fle mark (tr_tp tr)")
    case True
    with spec_remaining_at_tp [OF True assms] show ?thesis
      by (simp add: remaining_profit_to_tp_def Let_def)
  next
    case False
    have "fle ?v (Fin 0) \<or> ?v = NaN \<longleftrightarrow> \<not> flt (Fin 0) ?v"
      using fle_total [of ?v "Fin 0"] flt_not_fle [of "Fin 0" ?v] by auto
    with False show ?thesis
      by (auto simp add: remaining_profit_to_tp_def Let_def spec_remaining_def py_max0_def)
  qed
  assume pos: "flt (Fin 0) (spec_remaining tr mark)"
  show "remaining_profit_to_tp tr mark = spec_remaining tr mark"
  proof (cases "fle mark (tr_tp tr)")
    case True
    with spec_remaining_at_tp [OF True assms] pos show ?thesis by simp
  next
    case False
    with pos show ?thesis
      by (auto simp add: remaining_profit_to_tp_def Let_def spec_remaining_def py_max0_def
          split: if_splits)
  qed
qed

text \<open>
  C2. For a trade whose quantity is not negative, the funding guard returns true exactly
  when it is enabled, the ticker's funding rate is negative, the remaining profit
  \<^verbatim>\<open>max(0, (mark - tp) * qty)\<close> is positive and
  \<^verbatim>\<open>abs(notional * rate) >= remaining * funding_guard_ratio\<close>, all in the arithmetic of
  floats. It returns false when it is disabled, when the rate is not negative and when the
  remaining profit is 0.
\<close>

theorem funding_guard_iff:
  assumes "fge (tr_qty tr) (Fin 0)"
  shows "(funding_guard cfg tr ticker mark \<longleftrightarrow>
            enable_funding_guard cfg
            \<and> flt (safe_float (ti_funding_rate ticker) (Fin 0)) (Fin 0)
            \<and> fgt (spec_remaining tr mark) (Fin 0)
            \<and> fge (fabs (fmul (tr_notional_usdt tr) (safe_float (ti_funding_rate ticker) (Fin 0))))
                 (fmul (spec_remaining tr mark) (funding_guard_ratio cfg)))
         \<and> (\<not> enable_funding_guard cfg \<longrightarrow> \<not> funding_guard cfg tr ticker mark)
         \<and> (fge (safe_float (ti_funding_rate ticker) (Fin 0)) (Fin 0)
              \<longrightarrow> \<not> funding_guard cfg tr ticker mark)
         \<and> (spec_remaining tr mark = Fin 0 \<longrightarrow> \<not> funding_guard cfg tr ticker mark)"
proof -
  let ?rate = "safe_float (ti_funding_rate ticker) (Fin 0)"
  let ?rem = "remaining_profit_to_tp tr mark"
  let ?spec = "spec_remaining tr mark"
  from assms have q: "fle (Fin 0) (tr_qty tr)" by simp
  have code: "funding_guard cfg tr ticker mark \<longleftrightarrow>
      enable_funding_guard cfg \<and> \<not> fle (Fin 0) ?rate \<and> \<not> fle ?rem (Fin 0)
      \<and> fle (fmul ?rem (funding_guard_ratio cfg)) (fabs (fmul (tr_notional_usdt tr) ?rate))"
    by (simp add: funding_guard_def funding_pnl_short_def Let_def)
  have rate: "\<not> fle (Fin 0) ?rate \<longleftrightarrow> flt ?rate (Fin 0) \<or> ?rate = NaN"
    using fle_total [of "Fin 0" ?rate] flt_not_fle [of ?rate "Fin 0"] by auto
  have main: "funding_guard cfg tr ticker mark \<longleftrightarrow>
            enable_funding_guard cfg \<and> flt ?rate (Fin 0) \<and> flt (Fin 0) ?spec
            \<and> fle (fmul ?spec (funding_guard_ratio cfg)) (fabs (fmul (tr_notional_usdt tr) ?rate))"
  proof (cases "flt (Fin 0) ?spec")
    case True
    from remaining_eq_spec(2) [OF q True] have e: "?rem = ?spec" .
    from True have "\<not> fle ?spec (Fin 0)" by (rule flt_not_fle)
    with e True show ?thesis unfolding code rate by auto
  next
    case False
    with remaining_eq_spec(1) [OF q, of mark] have "fle ?rem (Fin 0) \<or> ?rem = NaN" by simp
    with False show ?thesis unfolding code by auto
  qed
  have zero: "\<not> funding_guard cfg tr ticker mark" if "?spec = Fin 0"
    using main that by simp
  have nonneg: "\<not> funding_guard cfg tr ticker mark" if "fge ?rate (Fin 0)"
    using code that by simp
  show ?thesis
    using main zero nonneg code by auto
qed

text \<open>
  The spec's numbers: remaining profit \<^verbatim>\<open>0.1\<close>, notional 20, rate \<^verbatim>\<open>-0.01\<close>, ratio 1. The
  product \<^verbatim>\<open>20 * -0.01\<close> is the double \<^verbatim>\<open>-0.2\<close>.
\<close>

lemma rnd_small [simp]:
  "rnd 0 = Fin 0" "rnd 1 = Fin 1" "rnd 2 = Fin 2" "rnd (- 1) = Fin (- 1)" "rnd (- 2) = Fin (- 2)"
  "rnd 48 = Fin 48" "rnd 100 = Fin 100" "rnd (1 / 2) = Fin (1 / 2)"
  using rnd_int [of 0] rnd_int [of 1] rnd_int [of 2] rnd_int [of "- 1"] rnd_int [of "- 2"]
    rnd_int [of 48] rnd_int [of 100] rnd_dyadic [of 1 1]
  by simp_all

lemma double_d01: "rnd d01 = Fin d01"
  using rnd_dyadic [of 3602879701896397 55] by (simp add: d01_def)

lemma double_d02: "rnd d02 = Fin d02"
  using rnd_dyadic [of 3602879701896397 54] by (simp add: d02_def)

lemma funding_1pct:
  "fmul (Fin 20) (Fin (- (5764607523034235 / 576460752303423488))) = Fin (- d02)"
proof -
  let ?x = "20 * - (5764607523034235 / 576460752303423488) :: real"
  have "rnd ?x = Fin (of_int (rne (?x / pow2 (- 3 - 52))) * pow2 (- 3 - 52))"
    by (rule rnd_normal) (simp_all add: pow2_def)
  also have "\<dots> = Fin (- d02)" by (simp add: pow2_def rne_def d02_def)
  finally show ?thesis by simp
qed

lemma ex_unit_fields:
  "tr_qty ex_unit_trade = Fin 1" "tr_tp ex_unit_trade = Fin 0"
  "tr_notional_usdt ex_unit_trade = Fin 20"
  "ti_funding_rate ex_ticker_1pct = Some (Fin (- (5764607523034235 / 576460752303423488)))"
  by (simp_all add: ex_unit_trade_def ex_trade_def ex_ticker_1pct_def)

lemma ex_unit_remaining:
  "spec_remaining ex_unit_trade (Fin d01) = Fin d01"
  "spec_remaining ex_unit_trade (Fin (1 / 2)) = Fin (1 / 2)"
  by (simp_all add: spec_remaining_def py_max0_def ex_unit_fields fsub_def double_d01)
     (simp_all add: d01_def)

text \<open>
  The take-profit \<^verbatim>\<open>0.847\<close>, the quantity \<^verbatim>\<open>16.528925619834713\<close> and the mark price
  \<^verbatim>\<open>0.8591\<close>: the difference \<^verbatim>\<open>0.8591 - 0.847\<close> is exact and its product with the quantity
  rounds to the double \<^verbatim>\<open>0.2\<close>.
\<close>

lemma ex_edge_fields:
  "tr_qty ex_edge_trade = Fin (4652478953895141 / 281474976710656)"
  "tr_tp ex_edge_trade = Fin (1907274442191405 / 2251799813685248)"
  "tr_notional_usdt ex_edge_trade = Fin 20"
  by (simp_all add: ex_edge_trade_def ex_trade_def)

lemma ex_edge_difference:
  "fsub ex_edge_mark (tr_tp ex_edge_trade) = Fin (54493555491183 / 4503599627370496)"
  using rnd_dyadic [of 54493555491183 52] by (simp add: fsub_def ex_edge_mark_def ex_edge_fields)

lemma ex_edge_remaining: "spec_remaining ex_edge_trade ex_edge_mark = Fin d02"
proof -
  let ?x = "54493555491183 / 4503599627370496 * (4652478953895141 / 281474976710656) :: real"
  have "rnd ?x = Fin (of_int (rne (?x / pow2 (- 3 - 52))) * pow2 (- 3 - 52))"
    by (rule rnd_normal) (simp_all add: pow2_def)
  also have "\<dots> = Fin d02" by (simp add: pow2_def rne_def d02_def)
  finally have "fmul (fsub ex_edge_mark (tr_tp ex_edge_trade)) (tr_qty ex_edge_trade) = Fin d02"
    unfolding ex_edge_difference by (simp add: ex_edge_fields)
  then show ?thesis by (simp add: spec_remaining_def py_max0_def d02_def)
qed

theorem funding_guard_iff_witness:
  "fge (tr_qty ex_unit_trade) (Fin 0)
   \<and> spec_remaining ex_unit_trade (Fin d01) = Fin d01
   \<and> funding_guard CFG ex_unit_trade ex_ticker_1pct (Fin d01)
   \<and> spec_remaining ex_unit_trade (Fin (1 / 2)) = Fin (1 / 2)
   \<and> \<not> funding_guard CFG ex_unit_trade ex_ticker_1pct (Fin (1 / 2))
   \<and> \<not> funding_guard (CFG\<lparr> enable_funding_guard := False \<rparr>) ex_unit_trade ex_ticker_1pct
         (Fin d01)
   \<and> fge (tr_qty ex_edge_trade) (Fin 0)
   \<and> spec_remaining ex_edge_trade ex_edge_mark = Fin d02
   \<and> funding_guard CFG ex_edge_trade ex_ticker_1pct ex_edge_mark"
proof -
  have q: "fge (tr_qty ex_unit_trade) (Fin 0)" "fge (tr_qty ex_edge_trade) (Fin 0)"
    by (simp_all add: ex_unit_fields ex_edge_fields)
  have cfg: "enable_funding_guard CFG" "funding_guard_ratio CFG = Fin 1"
    "\<not> enable_funding_guard (CFG\<lparr> enable_funding_guard := False \<rparr>)"
    by (simp_all add: CFG_def)
  have rate: "safe_float (ti_funding_rate ex_ticker_1pct) (Fin 0)
      = Fin (- (5764607523034235 / 576460752303423488))"
    by (simp add: safe_float_def ex_unit_fields)
  have a: "funding_guard CFG ex_unit_trade ex_ticker_1pct (Fin d01)"
    using funding_guard_iff [OF q(1), of CFG ex_ticker_1pct "Fin d01", unfolded rate,
        unfolded ex_unit_fields(3) ex_unit_remaining, unfolded funding_1pct]
    by (simp add: cfg double_d01) (simp add: d01_def d02_def)
  have b: "\<not> funding_guard CFG ex_unit_trade ex_ticker_1pct (Fin (1 / 2))"
    using funding_guard_iff [OF q(1), of CFG ex_ticker_1pct "Fin (1 / 2)", unfolded rate,
        unfolded ex_unit_fields(3) ex_unit_remaining, unfolded funding_1pct]
    by (simp add: cfg) (simp add: d02_def)
  have c: "\<not> funding_guard (CFG\<lparr> enable_funding_guard := False \<rparr>) ex_unit_trade
      ex_ticker_1pct (Fin d01)"
    using funding_guard_iff [OF q(1), of "CFG\<lparr> enable_funding_guard := False \<rparr>"
        ex_ticker_1pct "Fin d01"] cfg(3)
    by blast
  have d: "funding_guard CFG ex_edge_trade ex_ticker_1pct ex_edge_mark"
    using funding_guard_iff [OF q(2), of CFG ex_ticker_1pct ex_edge_mark, unfolded rate,
        unfolded ex_edge_fields(3) ex_edge_remaining, unfolded funding_1pct]
    by (simp add: cfg double_d02) (simp add: d02_def)
  from q a b c d ex_unit_remaining ex_edge_remaining show ?thesis by blast
qed

section \<open>The statistics line\<close>



lemma fneg_not_Fin: "fneg b = Fin z \<Longrightarrow> \<exists>y. b = Fin y"
  by (cases b) simp_all














section \<open>The candidate filter\<close>
















end
